theory Spec2Isabelle
  imports Main "HOL-Library.Word"
begin

unbundle bit_operations_syntax

section \<open>Python values\<close>

text \<open>
  The dashboard is a Python program over pandas tables. An exception is a value of
  \<open>py_error\<close>, and a function that can raise returns \<open>py_error + 'a\<close>.
\<close>

datatype py_error =
    ValueError string
  | KeyError string
  | IndexError
  | AttributeError
  | OverflowError
  | BinasciiError string
  | IntCastingNaNError
  | StreamlitAPIException

text \<open>
  A Python \<open>str\<close> is an Isabelle \<open>string\<close>, one \<open>char\<close> for each code point, so the
  model covers the code points below 256. A table cell holds a string, an integer or
  \<open>NaN\<close>, the marker pandas uses for a missing value. Floating-point cells are not
  modelled. An integer cell comes from a number of a spreadsheet or from a number input
  of a form, so it has a few hundred digits at most.
\<close>

datatype cell = Str string | Num int | NaN

subsection \<open>Decimal numerals: \<open>str(n)\<close>, \<open>int(s)\<close>, \<open>str.isdigit\<close>, \<open>str.upper\<close>\<close>

definition ord :: "char \<Rightarrow> nat" where
  "ord c = of_char c"

definition is_ascii_digit :: "char \<Rightarrow> bool" where
  "is_ascii_digit c = (48 \<le> ord c \<and> ord c \<le> 57)"

definition digit_value :: "char \<Rightarrow> nat" where
  "digit_value c = ord c - 48"

definition digit_char :: "nat \<Rightarrow> char" where
  "digit_char d = char_of (48 + d)"

text \<open>
  \<open>str.isdigit()\<close>: the string is not empty and every character is a digit. Below code
  point 256 the digits are \<open>0\<close> to \<open>9\<close> and the superscripts U+00B2, U+00B3 and U+00B9.
\<close>

definition isdigit_char :: "char \<Rightarrow> bool" where
  "isdigit_char c = (is_ascii_digit c \<or> ord c = 178 \<or> ord c = 179 \<or> ord c = 185)"

definition isdigit :: "string \<Rightarrow> bool" where
  "isdigit s = (s \<noteq> [] \<and> list_all isdigit_char s)"

definition digits_value :: "string \<Rightarrow> nat" where
  "digits_value s = foldl (\<lambda>acc c. 10 * acc + digit_value c) 0 s"

text \<open>
  CPython (from version 3.11, with its default setting) converts between \<open>int\<close> and
  \<open>str\<close> only up to 4300 decimal digits, and raises ValueError beyond.
\<close>

definition int_max_str_digits :: nat where
  "int_max_str_digits = 4300"

definition digits_limit_error :: py_error where
  "digits_limit_error = ValueError ''Exceeds the limit (4300 digits) for integer string conversion''"

text \<open>
  \<open>int(s)\<close> for a string: white space around the numeral is dropped, one sign may lead,
  and the digits \<open>0\<close> to \<open>9\<close> may be grouped by single underscores. Anything else, a
  superscript digit included, raises ValueError, and so does a numeral of more than 4300
  digits. The conversion reads the leading run of digits and underscores, checks its
  grouping, then its number of digits, and only then that nothing follows it.
\<close>

definition is_space :: "char \<Rightarrow> bool" where
  "is_space c = (ord c \<in> {9, 10, 11, 12, 13, 28, 29, 30, 31, 32, 133, 160})"

definition strip :: "string \<Rightarrow> string" where
  "strip s = rev (dropWhile is_space (rev (dropWhile is_space s)))"

fun digit_groups :: "bool \<Rightarrow> string \<Rightarrow> bool" where
  "digit_groups after_digit [] = after_digit"
| "digit_groups after_digit (c # cs) =
     (if is_ascii_digit c then digit_groups True cs
      else if c = CHR ''_'' \<and> after_digit then digit_groups False cs
      else False)"

definition numeral_char :: "char \<Rightarrow> bool" where
  "numeral_char c = (is_ascii_digit c \<or> c = CHR ''_'')"

definition invalid_literal :: py_error where
  "invalid_literal = ValueError ''invalid literal for int() with base 10''"

definition int_of_numeral :: "string \<Rightarrow> py_error + int" where
  "int_of_numeral ds =
     (let run = takeWhile numeral_char ds;
          rest = dropWhile numeral_char ds
      in if run \<noteq> [] \<and> \<not> digit_groups False run then Inl invalid_literal
         else if length (filter is_ascii_digit run) > int_max_str_digits then Inl digits_limit_error
         else if run = [] \<or> rest \<noteq> [] then Inl invalid_literal
         else Inr (int (digits_value (filter (\<lambda>c. c \<noteq> CHR ''_'') run))))"

definition py_int :: "string \<Rightarrow> py_error + int" where
  "py_int s =
     (case strip s of
        c # ds \<Rightarrow>
          (if c = CHR ''-'' then (case int_of_numeral ds of Inl e \<Rightarrow> Inl e | Inr n \<Rightarrow> Inr (- n))
           else if c = CHR ''+'' then int_of_numeral ds
           else int_of_numeral (c # ds))
      | [] \<Rightarrow> int_of_numeral [])"

function str_nat :: "nat \<Rightarrow> string" where
  "str_nat n = (if n < 10 then [digit_char n] else str_nat (n div 10) @ [digit_char (n mod 10)])"
  by pat_completeness auto
termination
  by (relation "measure id") auto

declare str_nat.simps [simp del]

text \<open>
  \<open>str(i)\<close>, applied here to the integers of cells and to iteration counts only, which
  stay below the 4300 digits of the limit.
\<close>

definition py_str :: "int \<Rightarrow> string" where
  "py_str i = (if i < 0 then CHR ''-'' # str_nat (nat (- i)) else str_nat (nat i))"

text \<open>
  The format \<open>{n:03d}\<close>: the decimal numeral, zero-padded to three characters, the sign of
  a negative number counting as one of them; ValueError for a number of more than 4300
  digits.
\<close>

definition zero_pad :: "nat \<Rightarrow> string \<Rightarrow> string" where
  "zero_pad w s = replicate (w - length s) (CHR ''0'') @ s"

definition fmt03d :: "int \<Rightarrow> py_error + string" where
  "fmt03d n =
     (if length (str_nat (nat \<bar>n\<bar>)) > int_max_str_digits then Inl digits_limit_error
      else if n < 0 then Inr (CHR ''-'' # zero_pad 2 (str_nat (nat (- n))))
      else Inr (zero_pad 3 (str_nat (nat n))))"

text \<open>
  \<open>str.upper()\<close> on the letters \<open>a\<close> to \<open>z\<close>. The upper-case image of a character outside
  ASCII never contains \<open>L\<close>, \<open>A\<close> or \<open>B\<close>, which is all that the prefix test of
  \<open>next_item_id\<close> looks at, so such a character is left as it is.
\<close>

definition upper_char :: "char \<Rightarrow> char" where
  "upper_char c = (if 97 \<le> ord c \<and> ord c \<le> 122 then char_of (ord c - 32) else c)"

definition upper :: "string \<Rightarrow> string" where
  "upper s = map upper_char s"

definition startswith :: "string \<Rightarrow> string \<Rightarrow> bool" where
  "startswith s p = (take (length p) s = p)"

subsection \<open>Cells\<close>

text \<open>\<open>str(v)\<close> of a cell, as \<open>Series.astype(str)\<close> and an f-string apply it.\<close>

fun astype_str :: "cell \<Rightarrow> string" where
  "astype_str (Str s) = s"
| "astype_str (Num i) = py_str i"
| "astype_str NaN = ''nan''"

text \<open>\<open>a == b\<close> on cells, element by element: a missing value equals nothing.\<close>

definition cell_eq :: "cell \<Rightarrow> cell \<Rightarrow> bool" where
  "cell_eq a b = (a = b \<and> a \<noteq> NaN)"

text \<open>\<open>int(v)\<close> of a cell.\<close>

fun int_of_cell :: "cell \<Rightarrow> py_error + int" where
  "int_of_cell (Num i) = Inr i"
| "int_of_cell (Str s) = py_int s"
| "int_of_cell NaN = Inl (ValueError ''cannot convert float NaN to integer'')"

text \<open>Truth value of a cell in \<open>if v:\<close>.\<close>

fun truthy :: "cell \<Rightarrow> bool" where
  "truthy (Str s) = (s \<noteq> [])"
| "truthy (Num i) = (i \<noteq> 0)"
| "truthy NaN = True"

section \<open>Tables\<close>

text \<open>
  A pandas DataFrame: the column labels in order, and the rows, each giving the cell of
  every column. Only the cells of the labelled columns mean anything; a row holds \<open>NaN\<close>
  elsewhere.
\<close>

type_synonym row = "string \<Rightarrow> cell"

record dataframe =
  columns :: "string list"
  rows :: "row list"

text \<open>\<open>pd.DataFrame(columns=cols)\<close>\<close>

definition empty_frame :: "string list \<Rightarrow> dataframe" where
  "empty_frame cols = \<lparr>columns = cols, rows = []\<rparr>"

text \<open>\<open>df.empty\<close>\<close>

definition df_empty :: "dataframe \<Rightarrow> bool" where
  "df_empty df = (columns df = [] \<or> rows df = [])"

text \<open>\<open>df[c].tolist()\<close> for a column \<open>c\<close> of the table.\<close>

definition column_values :: "dataframe \<Rightarrow> string \<Rightarrow> cell list" where
  "column_values df c = map (\<lambda>r. r c) (rows df)"

text \<open>\<open>df[c] = v\<close> for a scalar \<open>v\<close>: a new column goes last.\<close>

definition set_constant :: "string \<Rightarrow> cell \<Rightarrow> dataframe \<Rightarrow> dataframe" where
  "set_constant c v df =
     \<lparr>columns = (if c \<in> set (columns df) then columns df else columns df @ [c]),
      rows = map (\<lambda>r. r(c := v)) (rows df)\<rparr>"

text \<open>\<open>df[c] = vs\<close> for an existing column \<open>c\<close> and one value for each row.\<close>

definition set_column_values :: "string \<Rightarrow> cell list \<Rightarrow> dataframe \<Rightarrow> dataframe" where
  "set_column_values c vs df = df\<lparr>rows := map2 (\<lambda>r v. r(c := v)) (rows df) vs\<rparr>"

text \<open>\<open>df[cols]\<close>: KeyError when a label is not a column.\<close>

definition select_columns :: "string list \<Rightarrow> dataframe \<Rightarrow> py_error + dataframe" where
  "select_columns cols df =
     (if list_all (\<lambda>c. c \<in> set (columns df)) cols
      then Inr \<lparr>columns = cols, rows = map (\<lambda>r c. if c \<in> set cols then r c else NaN) (rows df)\<rparr>
      else Inl (KeyError ''not in index''))"

text \<open>
  \<open>pd.concat([df, pd.DataFrame([row])], ignore_index=True)\<close> for a row given as a
  dictionary with the keys \<open>keys\<close>: new labels go last, and a cell that one side does not
  have is \<open>NaN\<close>.
\<close>

definition concat_row :: "dataframe \<Rightarrow> string list \<Rightarrow> row \<Rightarrow> dataframe" where
  "concat_row df keys new_row =
     \<lparr>columns = columns df @ filter (\<lambda>k. k \<notin> set (columns df)) keys,
      rows = map (\<lambda>r c. if c \<in> set (columns df) then r c else NaN) (rows df)
             @ [\<lambda>c. if c \<in> set keys then new_row c else NaN]\<rparr>"

subsection \<open>Reading a file\<close>

text \<open>
  A backing file (the inventory spreadsheet, the users CSV) is modelled by the table it
  holds. \<open>pd.read_csv(path, dtype=str)\<close> and \<open>pd.read_excel(path, dtype=str)\<close> deliver
  every cell as a string, except that pandas turns the empty cell and its default
  missing-value markers into \<open>NaN\<close>.
\<close>

definition na_values :: "string list" where
  "na_values =
     ['''', ''#N/A'', ''#N/A N/A'', ''#NA'', ''-1.#IND'', ''-1.#QNAN'', ''-NaN'', ''-nan'',
      ''1.#IND'', ''1.#QNAN'', ''<NA>'', ''N/A'', ''NA'', ''NULL'', ''NaN'', ''None'', ''n/a'',
      ''nan'', ''null'']"

fun read_str_cell :: "cell \<Rightarrow> cell" where
  "read_str_cell (Str s) = (if s \<in> set na_values then NaN else Str s)"
| "read_str_cell (Num i) = Str (py_str i)"
| "read_str_cell NaN = NaN"

definition read_str :: "dataframe \<Rightarrow> dataframe" where
  "read_str f = f\<lparr>rows := map (\<lambda>r c. read_str_cell (r c)) (rows f)\<rparr>"

subsection \<open>Numeric coercion\<close>

text \<open>
  \<open>pd.to_numeric(col, errors="coerce")\<close> gives each cell a number, \<open>NaN\<close> when it does not
  parse, or an infinity. A finite number is represented by the integer that
  \<open>.astype(int)\<close> makes of it.
\<close>

datatype numeric = Finite int | NotNumber | Infinite

text \<open>
  The part of the conversion that is fixed here: an integer cell, and a string that is a
  plain decimal integer (an optional minus sign and the digits \<open>0\<close> to \<open>9\<close>), both within
  the range in which a 64-bit float is exact; the missing cell; and the string \<open>inf\<close>.
  What pandas makes of any other cell (decimal fractions, exponents, white space, very
  large numbers) is the parameter \<open>ext\<close> of the functions below.
\<close>

definition plain_int :: "string \<Rightarrow> int option" where
  "plain_int s =
     (case s of
        c # ds \<Rightarrow>
          (if c = CHR ''-'' then
             (if ds \<noteq> [] \<and> list_all is_ascii_digit ds then Some (- int (digits_value ds)) else None)
           else if list_all is_ascii_digit s then Some (int (digits_value s)) else None)
      | [] \<Rightarrow> None)"

definition float_exact :: "int \<Rightarrow> bool" where
  "float_exact i = (\<bar>i\<bar> \<le> 2 ^ 53)"

fun exact_int :: "cell \<Rightarrow> int option" where
  "exact_int (Num i) = (if float_exact i then Some i else None)"
| "exact_int (Str s) = (case plain_int s of Some i \<Rightarrow> (if float_exact i then Some i else None) | None \<Rightarrow> None)"
| "exact_int NaN = None"

definition to_numeric :: "(cell \<Rightarrow> numeric) \<Rightarrow> cell \<Rightarrow> numeric" where
  "to_numeric ext c =
     (case exact_int c of
        Some i \<Rightarrow> Finite i
      | None \<Rightarrow> (if c = NaN then NotNumber else if c = Str ''inf'' then Infinite else ext c))"

text \<open>\<open>.fillna(0)\<close>\<close>

fun fillna0 :: "numeric \<Rightarrow> numeric" where
  "fillna0 NotNumber = Finite 0"
| "fillna0 x = x"

text \<open>\<open>.astype(int)\<close> raises on a value that is not finite.\<close>

fun astype_int :: "numeric list \<Rightarrow> py_error + cell list" where
  "astype_int [] = Inr []"
| "astype_int (Finite i # xs) =
     (case astype_int xs of Inl e \<Rightarrow> Inl e | Inr ys \<Rightarrow> Inr (Num i # ys))"
| "astype_int (x # xs) = Inl IntCastingNaNError"

text \<open>
  \<open>if c in df.columns: df[c] = pd.to_numeric(df[c], errors="coerce").fillna(0).astype(int)\<close>
\<close>

definition coerce_int_column :: "(cell \<Rightarrow> numeric) \<Rightarrow> string \<Rightarrow> dataframe \<Rightarrow> py_error + dataframe" where
  "coerce_int_column ext c df =
     (if c \<in> set (columns df) then
        (case astype_int (map (\<lambda>v. fillna0 (to_numeric ext v)) (column_values df c)) of
           Inl e \<Rightarrow> Inl e
         | Inr vs \<Rightarrow> Inr (set_column_values c vs df))
      else Inr df)"

section \<open>The inventory\<close>

definition default_cols :: "string list" where
  "default_cols =
     [''Item ID'', ''Item Name'', ''Category'', ''Quantity'', ''Unit'', ''Reorder Level'',
      ''Supplier'', ''Last Restocked'', ''Expiry Date'', ''Storage Location'', ''Remarks'']"

text \<open>The loop that adds the default columns a file lacks.\<close>

definition default_cell :: "string \<Rightarrow> cell" where
  "default_cell c = (if c \<notin> {''Quantity'', ''Reorder Level''} then Str [] else Num 0)"

definition add_default_column :: "string \<Rightarrow> dataframe \<Rightarrow> dataframe" where
  "add_default_column c df = (if c \<notin> set (columns df) then set_constant c (default_cell c) df else df)"

text \<open>\<open>load_inventory\<close>; the argument is the backing file, \<open>None\<close> when it does not exist.\<close>

definition load_inventory :: "(cell \<Rightarrow> numeric) \<Rightarrow> dataframe option \<Rightarrow> py_error + dataframe" where
  "load_inventory ext file =
     (case file of
        None \<Rightarrow> Inr (empty_frame default_cols)
      | Some f \<Rightarrow>
          (case coerce_int_column ext ''Quantity'' (read_str f) of
             Inl e \<Rightarrow> Inl e
           | Inr df1 \<Rightarrow>
               (case coerce_int_column ext ''Reorder Level'' df1 of
                  Inl e \<Rightarrow> Inl e
                | Inr df2 \<Rightarrow> select_columns default_cols (fold add_default_column default_cols df2))))"

subsection \<open>Item ids\<close>

text \<open>\<open>df.get("Item ID", pd.Series(dtype=str)).astype(str).tolist()\<close>\<close>

definition item_ids :: "dataframe \<Rightarrow> string list" where
  "item_ids df =
     (if ''Item ID'' \<in> set (columns df) then map astype_str (column_values df ''Item ID'') else [])"

text \<open>
  The loop of \<open>next_item_id\<close>: the numbers of the ids that start with \<open>LAB\<close> (in either
  case) and continue with digits, in table order; an id whose \<open>int()\<close> raises is skipped.
\<close>

fun lab_numbers :: "string list \<Rightarrow> int list" where
  "lab_numbers [] = []"
| "lab_numbers (v # vs) =
     (if startswith (upper v) ''LAB'' \<and> isdigit (drop 3 v)
      then (case py_int (drop 3 v) of Inr n \<Rightarrow> n # lab_numbers vs | Inl e \<Rightarrow> lab_numbers vs)
      else lab_numbers vs)"

definition next_item_id :: "dataframe \<Rightarrow> py_error + string" where
  "next_item_id df =
     (let existing = item_ids df;
          nums = lab_numbers existing;
          n = (if nums \<noteq> [] then Max (set nums) + 1 else 1)
      in case fmt03d n of Inl e \<Rightarrow> Inl e | Inr s \<Rightarrow> Inr (''LAB'' @ s))"

text \<open>
  The pattern as the specification words it: \<open>LAB\<close> (in either case, as the code compares
  the upper-cased id) followed by at least one decimal digit, and the number such an id
  carries. The scan counts an id of the pattern when \<open>int()\<close> converts its digits, that
  is when they are 4300 at most.
\<close>

definition lab_pattern :: "string \<Rightarrow> bool" where
  "lab_pattern v =
     (map upper_char (take 3 v) = ''LAB'' \<and> drop 3 v \<noteq> [] \<and> list_all is_ascii_digit (drop 3 v))"

definition lab_number :: "string \<Rightarrow> int" where
  "lab_number v = int (digits_value (drop 3 v))"

definition lab_scanned :: "string \<Rightarrow> bool" where
  "lab_scanned v = (lab_pattern v \<and> length (drop 3 v) \<le> int_max_str_digits)"

subsection \<open>The session and the operations of the Manage Inventory tab\<close>

text \<open>
  The state the operations act on: the backing file, the table of the session
  (\<open>st.session_state["inventory_df"]\<close>), the user who is signed in, and the audit trail,
  of which the model keeps the user and the action of each entry.
\<close>

record app =
  inventory_file :: "dataframe option"
  inventory_df :: dataframe
  username :: string
  audit_log :: "(string \<times> string) list"

definition log_action :: "string \<Rightarrow> string \<Rightarrow> app \<Rightarrow> app" where
  "log_action user action_desc st = st\<lparr>audit_log := audit_log st @ [(user, action_desc)]\<rparr>"

definition save_inventory :: "dataframe \<Rightarrow> string \<Rightarrow> app \<Rightarrow> app" where
  "save_inventory df action_desc st =
     log_action (username st) action_desc (st\<lparr>inventory_file := Some df, inventory_df := df\<rparr>)"

text \<open>What an operation shows: the table was saved, a message, or nothing.\<close>

datatype outcome = Saved | ErrorMessage string | CouldNotRead py_error | Nothing

text \<open>The fields of the Add Item form.\<close>

record item_form =
  item_name :: string
  category :: string
  quantity :: int
  unit_name :: string
  reorder_level :: int
  supplier :: string
  last_restocked :: string
  expiry_date :: string
  storage_location :: string
  remarks :: string

definition form_row :: "string \<Rightarrow> item_form \<Rightarrow> row" where
  "form_row new_id form =
     (\<lambda>c. NaN)
       (''Item ID'' := Str new_id,
        ''Item Name'' := Str (item_name form),
        ''Category'' := Str (category form),
        ''Quantity'' := Num (quantity form),
        ''Unit'' := Str (unit_name form),
        ''Reorder Level'' := Num (reorder_level form),
        ''Supplier'' := Str (supplier form),
        ''Last Restocked'' := Str (last_restocked form),
        ''Expiry Date'' := Str (if expiry_date form \<noteq> [] then expiry_date form else ''N/A''),
        ''Storage Location'' := Str (storage_location form),
        ''Remarks'' := Str (remarks form))"

definition add_item :: "item_form \<Rightarrow> app \<Rightarrow> py_error + outcome \<times> app" where
  "add_item form st =
     (let df = inventory_df st in
      case next_item_id df of
        Inl e \<Rightarrow> Inl e
      | Inr new_id \<Rightarrow>
          (let df' = concat_row df default_cols (form_row new_id form)
           in Inr (Saved,
                save_inventory df' (''Added new item: '' @ new_id @ '' ('' @ item_name form @ '')'') st)))"

text \<open>
  Edit Item: the selected id is one of the ids of the table; the quantity, the reorder
  level and the remarks of its rows are overwritten. The old values of the first row
  with the id are read before the form is shown: a column the table lacks raises
  KeyError, an old value is \<open>int(v) if pd.notna(v) else 0\<close>, and a number input with
  \<open>min_value=0\<close> raises for a negative old value.
\<close>

definition old_value :: "cell \<Rightarrow> py_error + int" where
  "old_value v = (if v \<noteq> NaN then int_of_cell v else Inr 0)"

text \<open>\<open>int(row[c]) if pd.notna(row[c]) else 0\<close> for a row of the table \<open>df\<close>.\<close>

definition read_old_value :: "dataframe \<Rightarrow> row \<Rightarrow> string \<Rightarrow> py_error + int" where
  "read_old_value df r c = (if c \<notin> set (columns df) then Inl (KeyError c) else old_value (r c))"

definition edit_item :: "cell \<Rightarrow> int \<Rightarrow> int \<Rightarrow> string \<Rightarrow> app \<Rightarrow> py_error + outcome \<times> app" where
  "edit_item sel_id e_qty e_reorder e_remarks st =
     (let df = inventory_df st in
      if df_empty df then Inr (Nothing, st)
      else if ''Item ID'' \<notin> set (columns df) then Inl (KeyError ''Item ID'')
      else if \<not> truthy sel_id then Inr (Nothing, st)
      else
        (case filter (\<lambda>r. cell_eq (r ''Item ID'') sel_id) (rows df) of
           [] \<Rightarrow> Inl IndexError
         | r0 # rest \<Rightarrow>
             (if ''Item Name'' \<notin> set (columns df) then Inl (KeyError ''Item Name'')
              else
                (case read_old_value df r0 ''Quantity'' of
                   Inl e \<Rightarrow> Inl e
                 | Inr old_qty \<Rightarrow>
                     (case read_old_value df r0 ''Reorder Level'' of
                        Inl e \<Rightarrow> Inl e
                      | Inr old_reorder \<Rightarrow>
                          (if ''Remarks'' \<notin> set (columns df) then Inl (KeyError ''Remarks'')
                           else if old_qty < 0 \<or> old_reorder < 0 then Inl StreamlitAPIException
                           else
                             (let df' = df\<lparr>rows :=
                                    map (\<lambda>r. if cell_eq (r ''Item ID'') sel_id
                                              then r(''Quantity'' := Num e_qty,
                                                     ''Reorder Level'' := Num e_reorder,
                                                     ''Remarks'' := Str e_remarks)
                                              else r) (rows df)\<rparr>
                              in Inr (Saved,
                                   save_inventory df'
                                     (''Edited item '' @ astype_str sel_id @ '' (''
                                        @ astype_str (r0 ''Item Name'') @ '')'') st))))))))"

text \<open>
  Delete Item: the rows whose id equals the selected one are dropped. When a row carries
  the id, its name and quantity are read first, for the audit trail.
\<close>

definition delete_item :: "cell \<Rightarrow> app \<Rightarrow> py_error + outcome \<times> app" where
  "delete_item del_id st =
     (let df = inventory_df st in
      if df_empty df then Inr (Nothing, st)
      else if ''Item ID'' \<notin> set (columns df) then Inl (KeyError ''Item ID'')
      else if \<not> truthy del_id then Inr (Nothing, st)
      else
        (let df' = df\<lparr>rows := filter (\<lambda>r. \<not> cell_eq (r ''Item ID'') del_id) (rows df)\<rparr>;
             saved = Inr (Saved, save_inventory df' (''Deleted item: '' @ astype_str del_id) st)
         in case filter (\<lambda>r. cell_eq (r ''Item ID'') del_id) (rows df) of
              [] \<Rightarrow> saved
            | r0 # rest \<Rightarrow>
                (if ''Item Name'' \<notin> set (columns df) then Inl (KeyError ''Item Name'')
                 else (case read_old_value df r0 ''Quantity'' of
                         Inl e \<Rightarrow> Inl e
                       | Inr item_qty \<Rightarrow> saved))))"

text \<open>
  Bulk upload, on pressing "Save uploaded inventory": \<open>new_df\<close> is the table read from
  the uploaded spreadsheet. An exception of the coercion is caught and shown.
\<close>

definition bulk_upload :: "(cell \<Rightarrow> numeric) \<Rightarrow> dataframe \<Rightarrow> app \<Rightarrow> outcome \<times> app" where
  "bulk_upload ext new_df st =
     (if ''Item ID'' \<notin> set (columns new_df)
      then (ErrorMessage ''Uploaded file must contain 'Item ID' column.'', st)
      else
        (case coerce_int_column ext ''Quantity'' new_df of
           Inl e \<Rightarrow> (CouldNotRead e, st)
         | Inr df1 \<Rightarrow>
             (case coerce_int_column ext ''Reorder Level'' df1 of
                Inl e \<Rightarrow> (CouldNotRead e, st)
              | Inr df2 \<Rightarrow>
                  (Saved, save_inventory df2 (''Bulk inventory upload by '' @ username st) st))))"

section \<open>Password hashing\<close>

type_synonym byte = "8 word"
type_synonym u32 = "32 word"

text \<open>\<open>s.encode("utf-8")\<close> for code points below 256.\<close>

definition encode_char :: "char \<Rightarrow> byte list" where
  "encode_char c =
     (if ord c < 128 then [word_of_nat (ord c)]
      else [word_of_nat (192 + ord c div 64), word_of_nat (128 + ord c mod 64)])"

definition encode_utf8 :: "string \<Rightarrow> byte list" where
  "encode_utf8 s = concat (map encode_char s)"

subsection \<open>\<open>binascii.hexlify\<close> and \<open>binascii.unhexlify\<close>\<close>

definition hex_digit :: "nat \<Rightarrow> char" where
  "hex_digit n = ''0123456789abcdef'' ! n"

text \<open>\<open>binascii.hexlify(bs).decode("utf-8")\<close>\<close>

definition hexlify :: "byte list \<Rightarrow> string" where
  "hexlify bs = concat (map (\<lambda>b. [hex_digit (unat b div 16), hex_digit (unat b mod 16)]) bs)"

definition hex_value :: "byte \<Rightarrow> nat option" where
  "hex_value b =
     (let n = unat b in
      if 48 \<le> n \<and> n \<le> 57 then Some (n - 48)
      else if 97 \<le> n \<and> n \<le> 102 then Some (n - 87)
      else if 65 \<le> n \<and> n \<le> 70 then Some (n - 55)
      else None)"

fun unhex_pairs :: "byte list \<Rightarrow> py_error + byte list" where
  "unhex_pairs (x # y # bs) =
     (case (hex_value x, hex_value y) of
        (Some a, Some b) \<Rightarrow>
          (case unhex_pairs bs of Inl e \<Rightarrow> Inl e | Inr r \<Rightarrow> Inr (word_of_nat (16 * a + b) # r))
      | _ \<Rightarrow> Inl (BinasciiError ''Non-hexadecimal digit found''))"
| "unhex_pairs bs = Inr []"

definition unhexlify :: "byte list \<Rightarrow> py_error + byte list" where
  "unhexlify bs =
     (if odd (length bs) then Inl (BinasciiError ''Odd-length string'') else unhex_pairs bs)"

subsection \<open>SHA-256, HMAC and PBKDF2\<close>

text \<open>
  \<open>hashlib.pbkdf2_hmac("sha256", password, salt, iterations)\<close> is the key derivation
  PBKDF2 with HMAC-SHA-256 as its pseudo-random function and one output block of 32
  bytes. The library function is written out (SHA-256 as in FIPS 180-4, HMAC as in
  RFC 2104, PBKDF2 as in RFC 8018), so that the statements below are about the digest
  the program stores and compares.
\<close>

definition K256 :: "u32 list" where
  "K256 =
    [0x428A2F98, 0x71374491, 0xB5C0FBCF, 0xE9B5DBA5, 0x3956C25B, 0x59F111F1, 0x923F82A4, 0xAB1C5ED5,
     0xD807AA98, 0x12835B01, 0x243185BE, 0x550C7DC3, 0x72BE5D74, 0x80DEB1FE, 0x9BDC06A7, 0xC19BF174,
     0xE49B69C1, 0xEFBE4786, 0x0FC19DC6, 0x240CA1CC, 0x2DE92C6F, 0x4A7484AA, 0x5CB0A9DC, 0x76F988DA,
     0x983E5152, 0xA831C66D, 0xB00327C8, 0xBF597FC7, 0xC6E00BF3, 0xD5A79147, 0x06CA6351, 0x14292967,
     0x27B70A85, 0x2E1B2138, 0x4D2C6DFC, 0x53380D13, 0x650A7354, 0x766A0ABB, 0x81C2C92E, 0x92722C85,
     0xA2BFE8A1, 0xA81A664B, 0xC24B8B70, 0xC76C51A3, 0xD192E819, 0xD6990624, 0xF40E3585, 0x106AA070,
     0x19A4C116, 0x1E376C08, 0x2748774C, 0x34B0BCB5, 0x391C0CB3, 0x4ED8AA4A, 0x5B9CCA4F, 0x682E6FF3,
     0x748F82EE, 0x78A5636F, 0x84C87814, 0x8CC70208, 0x90BEFFFA, 0xA4506CEB, 0xBEF9A3F7, 0xC67178F2]"

type_synonym sha_state = "u32 \<times> u32 \<times> u32 \<times> u32 \<times> u32 \<times> u32 \<times> u32 \<times> u32"

definition H256 :: sha_state where
  "H256 =
     (0x6A09E667, 0xBB67AE85, 0x3C6EF372, 0xA54FF53A, 0x510E527F, 0x9B05688C, 0x1F83D9AB, 0x5BE0CD19)"

definition rotr :: "nat \<Rightarrow> u32 \<Rightarrow> u32" where
  "rotr n x = word_rotr n x"

definition Ch :: "u32 \<Rightarrow> u32 \<Rightarrow> u32 \<Rightarrow> u32" where
  "Ch x y z = (x AND y) XOR (NOT x AND z)"

definition Maj :: "u32 \<Rightarrow> u32 \<Rightarrow> u32 \<Rightarrow> u32" where
  "Maj x y z = (x AND y) XOR (x AND z) XOR (y AND z)"

definition Sigma0 :: "u32 \<Rightarrow> u32" where
  "Sigma0 x = rotr 2 x XOR rotr 13 x XOR rotr 22 x"

definition Sigma1 :: "u32 \<Rightarrow> u32" where
  "Sigma1 x = rotr 6 x XOR rotr 11 x XOR rotr 25 x"

definition sigma0 :: "u32 \<Rightarrow> u32" where
  "sigma0 x = rotr 7 x XOR rotr 18 x XOR drop_bit 3 x"

definition sigma1 :: "u32 \<Rightarrow> u32" where
  "sigma1 x = rotr 17 x XOR rotr 19 x XOR drop_bit 10 x"

definition be32 :: "byte list \<Rightarrow> u32" where
  "be32 bs = foldl (\<lambda>acc b. push_bit 8 acc OR ucast b) 0 bs"

definition u32_bytes :: "u32 \<Rightarrow> byte list" where
  "u32_bytes w = [ucast (drop_bit 24 w), ucast (drop_bit 16 w), ucast (drop_bit 8 w), ucast w]"

definition u64_bytes :: "64 word \<Rightarrow> byte list" where
  "u64_bytes w = map (\<lambda>i. ucast (drop_bit (8 * (7 - i)) w)) [0..<8]"

text \<open>Padding: the bit 1, zeros, and the length in bits, up to a multiple of 64 bytes.\<close>

definition sha_pad :: "byte list \<Rightarrow> byte list" where
  "sha_pad m =
     m @ [0x80] @ replicate ((119 - length m mod 64) mod 64) 0 @ u64_bytes (word_of_nat (8 * length m))"

fun chunks :: "nat \<Rightarrow> nat \<Rightarrow> 'a list \<Rightarrow> 'a list list" where
  "chunks 0 k xs = []"
| "chunks (Suc n) k xs = take k xs # chunks n k (drop k xs)"

text \<open>The message schedule: the 16 words of the block, extended by \<open>n\<close> further words.\<close>

fun schedule :: "nat \<Rightarrow> u32 list \<Rightarrow> u32 list" where
  "schedule 0 w = w"
| "schedule (Suc n) w =
     schedule n (w @ [sigma1 (w ! (length w - 2)) + w ! (length w - 7)
                      + sigma0 (w ! (length w - 15)) + w ! (length w - 16)])"

fun sha_round :: "sha_state \<Rightarrow> u32 \<times> u32 \<Rightarrow> sha_state" where
  "sha_round (a, b, c, d, e, f, g, h) (k, w) =
     (let t1 = h + Sigma1 e + Ch e f g + k + w;
          t2 = Sigma0 a + Maj a b c
      in (t1 + t2, a, b, c, d + t1, e, f, g))"

fun add_state :: "sha_state \<Rightarrow> sha_state \<Rightarrow> sha_state" where
  "add_state (a, b, c, d, e, f, g, h) (a', b', c', d', e', f', g', h') =
     (a + a', b + b', c + c', d + d', e + e', f + f', g + g', h + h')"

definition compress :: "sha_state \<Rightarrow> byte list \<Rightarrow> sha_state" where
  "compress s block =
     (let w = schedule 48 (map be32 (chunks 16 4 block))
      in add_state s (foldl sha_round s (zip K256 w)))"

fun state_bytes :: "sha_state \<Rightarrow> byte list" where
  "state_bytes (a, b, c, d, e, f, g, h) = concat (map u32_bytes [a, b, c, d, e, f, g, h])"

definition sha256 :: "byte list \<Rightarrow> byte list" where
  "sha256 m =
     (let p = sha_pad m
      in state_bytes (foldl compress H256 (chunks (length p div 64) 64 p)))"

text \<open>
  HMAC: a key longer than the block of 64 bytes is hashed first, and the key is then
  filled up with zero bytes to the length of the block.
\<close>

definition hmac_key :: "byte list \<Rightarrow> byte list" where
  "hmac_key key =
     (let k0 = (if length key > 64 then sha256 key else key)
      in k0 @ replicate (64 - length k0) 0)"

definition hmac_sha256 :: "byte list \<Rightarrow> byte list \<Rightarrow> byte list" where
  "hmac_sha256 key msg =
     (let k = hmac_key key
      in sha256 (map (\<lambda>b. b XOR 0x5c) k @ sha256 (map (\<lambda>b. b XOR 0x36) k @ msg)))"

text \<open>
  PBKDF2, first block: \<open>U\<^sub>1 = HMAC(P, S || 00 00 00 01)\<close>, \<open>U\<^sub>j = HMAC(P, U\<^sub>j\<^sub>-\<^sub>1)\<close>, and the
  digest is \<open>U\<^sub>1 XOR ... XOR U\<^sub>c\<close>.
\<close>

fun pbkdf2_loop :: "byte list \<Rightarrow> nat \<Rightarrow> byte list \<Rightarrow> byte list \<Rightarrow> byte list" where
  "pbkdf2_loop p 0 u t = t"
| "pbkdf2_loop p (Suc n) u t =
     (let u' = hmac_sha256 p u in pbkdf2_loop p n u' (map2 (XOR) t u'))"

definition pbkdf2_digest :: "byte list \<Rightarrow> byte list \<Rightarrow> nat \<Rightarrow> byte list" where
  "pbkdf2_digest password salt c =
     (let u1 = hmac_sha256 password (salt @ [0, 0, 0, 1]) in pbkdf2_loop password (c - 1) u1 u1)"

text \<open>The library rejects an iteration count below 1 or above the largest C \<open>int\<close>.\<close>

definition pbkdf2_hmac :: "byte list \<Rightarrow> byte list \<Rightarrow> int \<Rightarrow> py_error + byte list" where
  "pbkdf2_hmac password salt iterations =
     (if iterations < 1 then Inl (ValueError ''iteration value must be greater than 0.'')
      else if iterations > 2147483647 then Inl OverflowError
      else Inr (pbkdf2_digest password salt (nat iterations)))"

section \<open>The credential store\<close>

definition PBKDF2_ITER_DEFAULT :: int where
  "PBKDF2_ITER_DEFAULT = 200000"

definition user_cols :: "string list" where
  "user_cols = [''username'', ''salt'', ''hash'', ''iterations'']"

text \<open>\<open>load_users\<close>; the argument is the users file, \<open>None\<close> when it does not exist.\<close>

definition add_user_column :: "string \<Rightarrow> dataframe \<Rightarrow> dataframe" where
  "add_user_column c df = (if c \<notin> set (columns df) then set_constant c (Str []) df else df)"

definition load_users :: "dataframe option \<Rightarrow> dataframe" where
  "load_users file =
     (case file of
        None \<Rightarrow> empty_frame user_cols
      | Some f \<Rightarrow> fold add_user_column user_cols (read_str f))"

text \<open>
  \<open>verify_password_pbkdf2\<close>. The salt and the hash come from a row of the users table,
  so they are cells; a salt that is not a string has no \<open>encode\<close>.
\<close>

definition verify_password_pbkdf2 :: "string \<Rightarrow> cell \<Rightarrow> cell \<Rightarrow> int \<Rightarrow> py_error + bool" where
  "verify_password_pbkdf2 password salt_hex hash_hex iterations =
     (case salt_hex of
        Str s \<Rightarrow>
          (let salt = (case unhexlify (encode_utf8 s) of Inr b \<Rightarrow> b | Inl e \<Rightarrow> encode_utf8 s) in
           case pbkdf2_hmac (encode_utf8 password) salt iterations of
             Inl e \<Rightarrow> Inl e
           | Inr dk \<Rightarrow> Inr (Str (hexlify dk) = hash_hex))
      | _ \<Rightarrow> Inl AttributeError)"

text \<open>
  \<open>add_user_to_csv\<close>. \<open>rnd\<close> stands for the 16 bytes that \<open>os.urandom(16)\<close> returned. The
  result is the exception or \<open>()\<close>, and the users file afterwards.
\<close>

definition user_row :: "string \<Rightarrow> string \<Rightarrow> string \<Rightarrow> int \<Rightarrow> row" where
  "user_row name salt hash_hex iterations =
     (\<lambda>c. NaN)
       (''username'' := Str name,
        ''salt'' := Str salt,
        ''hash'' := Str hash_hex,
        ''iterations'' := Str (py_str iterations))"

definition add_user_to_csv ::
    "byte list \<Rightarrow> string \<Rightarrow> string \<Rightarrow> dataframe option \<Rightarrow> int \<Rightarrow> (py_error + unit) \<times> dataframe option" where
  "add_user_to_csv rnd name password file iterations =
     (let salt = hexlify rnd in
      case unhexlify (encode_utf8 salt) of
        Inl e \<Rightarrow> (Inl e, file)
      | Inr salt_bytes \<Rightarrow>
          (case pbkdf2_hmac (encode_utf8 password) salt_bytes iterations of
             Inl e \<Rightarrow> (Inl e, file)
           | Inr dk \<Rightarrow>
               (let new_row = user_row name salt (hexlify dk) iterations in
                case file of
                  Some f \<Rightarrow>
                    (let df = read_str f in
                     if ''username'' \<in> set (columns df) \<and> Str name \<in> set (column_values df ''username'')
                     then (Inl (ValueError ''Username already exists.''), file)
                     else (Inr (), Some (concat_row df user_cols new_row)))
                | None \<Rightarrow> (Inr (), Some (concat_row (empty_frame []) user_cols new_row)))))"

text \<open>\<open>delete_user_from_csv\<close>\<close>

definition delete_user_from_csv :: "string \<Rightarrow> dataframe option \<Rightarrow> (py_error + unit) \<times> dataframe option" where
  "delete_user_from_csv name file =
     (let df = load_users file in
      if Str name \<notin> set (column_values df ''username'')
      then (Inl (ValueError ''Username not found.''), file)
      else (Inr (), Some (df\<lparr>rows := filter (\<lambda>r. \<not> cell_eq (r ''username'') (Str name)) (rows df)\<rparr>)))"

text \<open>\<open>is_admin_user\<close>: the first row of the users table decides.\<close>

definition is_admin_user :: "string \<Rightarrow> dataframe option \<Rightarrow> bool" where
  "is_admin_user name file =
     (let df = load_users file in
      if df_empty df then False
      else (case rows df of r # rs \<Rightarrow> Str name = r ''username'' | [] \<Rightarrow> False))"

text \<open>
  \<open>login_ui\<close> when the Login button is pressed: whether the user is signed in, and as
  whom. An exception of the verification is not caught.
\<close>

definition login_ui :: "dataframe option \<Rightarrow> string \<Rightarrow> string \<Rightarrow> py_error + bool \<times> string option" where
  "login_ui file name password =
     (let users_df = load_users file in
      case filter (\<lambda>r. cell_eq (r ''username'') (Str name)) (rows users_df) of
        [] \<Rightarrow> Inr (False, None)
      | r # rs \<Rightarrow>
          (case int_of_cell (r ''iterations'') of
             Inl e \<Rightarrow> Inl e
           | Inr it \<Rightarrow>
               (case verify_password_pbkdf2 password (r ''salt'') (r ''hash'') it of
                  Inl e \<Rightarrow> Inl e
                | Inr ok \<Rightarrow> Inr (if ok then (True, Some name) else (False, None)))))"

text \<open>The User Management tab: what a signed-in user is shown.\<close>

datatype page = Warning string | UserManagement dataframe

definition user_management_tab :: "string \<Rightarrow> dataframe option \<Rightarrow> page" where
  "user_management_tab name file =
     (let admin_mode = is_admin_user name file in
      if \<not> admin_mode then Warning ''Only the admin can manage users.''
      else UserManagement (load_users file))"

section \<open>The Expiry Monitor tab\<close>

text \<open>
  A point in time is a number of nanoseconds, as in a pandas Timestamp; \<open>now\<close> is
  \<open>pd.Timestamp(datetime.today())\<close>, which carries the time of day. \<open>None\<close> is \<open>NaT\<close> for a
  parsed date and \<open>NaN\<close> for a number of days.
\<close>

definition ns_per_day :: int where
  "ns_per_day = 86400000000000"


text \<open>\<open>(parsed - now).dt.days\<close>: the whole days of the difference, rounded down.\<close>

definition days_to_expiry :: "int \<Rightarrow> int option \<Rightarrow> int option" where
  "days_to_expiry now parsed = (case parsed of None \<Rightarrow> None | Some e \<Rightarrow> Some ((e - now) div ns_per_day))"

text \<open>\<open>pd.cut(x, bins, labels)\<close>: the label of the interval \<open>(lo, hi]\<close> that holds \<open>x\<close>.\<close>

fun pd_cut :: "int list \<Rightarrow> string list \<Rightarrow> int \<Rightarrow> string option" where
  "pd_cut (lo # hi # bins) (l # labels) x =
     (if lo < x \<and> x \<le> hi then Some l else pd_cut (hi # bins) labels x)"
| "pd_cut bins labels x = None"

definition expiry_bins :: "int list" where
  "expiry_bins = [-99999, 0, 30, 90, 365, 999999]"

definition expiry_labels :: "string list" where
  "expiry_labels = [''Expired'', ''<30 days'', ''30-90 days'', ''3-12 months'', ''>1 year'']"

text \<open>\<open>pd.cut(days.fillna(999999), bins, labels)\<close>\<close>

definition expiry_status :: "int option \<Rightarrow> string option" where
  "expiry_status days =
     pd_cut expiry_bins expiry_labels (case days of None \<Rightarrow> 999999 | Some d \<Rightarrow> d)"

text \<open>A row of \<open>exp_df\<close>: the inventory row with the three derived columns.\<close>

record exp_row =
  item :: row
  expiry_parsed :: "int option"
  days_left :: "int option"
  status :: "string option"

datatype exp_filter = AllWithDates | ExpiredOnly | Within30 | Within90

text \<open>The mask of each choice of the radio button; a comparison with \<open>NaN\<close> is false.\<close>

fun selected :: "exp_filter \<Rightarrow> exp_row \<Rightarrow> bool" where
  "selected AllWithDates x = (expiry_parsed x \<noteq> None)"
| "selected ExpiredOnly x = (case days_left x of None \<Rightarrow> False | Some d \<Rightarrow> d \<le> 0)"
| "selected Within30 x = (case days_left x of None \<Rightarrow> False | Some d \<Rightarrow> 0 < d \<and> d \<le> 30)"
| "selected Within90 x = (case days_left x of None \<Rightarrow> False | Some d \<Rightarrow> 0 < d \<and> d \<le> 90)"

definition make_exp_row :: "int \<Rightarrow> row \<Rightarrow> int option \<Rightarrow> exp_row" where
  "make_exp_row now r parsed =
     \<lparr>item = r, expiry_parsed = parsed, days_left = days_to_expiry now parsed,
      status = expiry_status (days_to_expiry now parsed)\<rparr>"

text \<open>The columns of the listing that the tab displays when the listing is not empty.\<close>

definition listing_cols :: "string list" where
  "listing_cols =
     [''Item ID'', ''Item Name'', ''Category'', ''Quantity'', ''Expiry Date'',
      ''Storage Location'', ''Supplier'', ''Remarks'']"

text \<open>
  The tab: \<open>to_datetime\<close> stands for \<open>pd.to_datetime(col, errors="coerce")\<close>, which gives
  each cell of the column its timestamp or \<open>NaT\<close>. The result is \<open>exp_df\<close> and the listing
  \<open>show\<close>. Reading the column Expiry Date of a table that lacks it raises KeyError, and
  so does displaying a listing that is not empty when one of its columns is lacking.
\<close>

definition expiry_monitor ::
    "(cell list \<Rightarrow> int option list) \<Rightarrow> int \<Rightarrow> exp_filter \<Rightarrow> dataframe
       \<Rightarrow> py_error + exp_row list \<times> exp_row list" where
  "expiry_monitor to_datetime now choice df =
     (if ''Expiry Date'' \<notin> set (columns df) then Inl (KeyError ''Expiry Date'')
      else
        (let parsed = to_datetime (column_values df ''Expiry Date'');
             exp_df = map2 (make_exp_row now) (rows df) parsed;
             shown = filter (selected choice) exp_df
         in if shown \<noteq> [] \<and> \<not> list_all (\<lambda>c. c \<in> set (columns df)) listing_cols
            then Inl (KeyError ''not in index'')
            else Inr (exp_df, shown)))"

section \<open>Notions of the specification\<close>

text \<open>The invariant of the inventory: no two rows carry the same Item ID.\<close>

definition unique_item_ids :: "dataframe \<Rightarrow> bool" where
  "unique_item_ids df = distinct (column_values df ''Item ID'')"

text \<open>
  The integer that the coercion of a numeric column makes of a cell: the number it parses
  to, and 0 when it does not parse.
\<close>

definition coerced_int :: "(cell \<Rightarrow> numeric) \<Rightarrow> cell \<Rightarrow> int" where
  "coerced_int ext v = (case to_numeric ext v of Finite i \<Rightarrow> i | NotNumber \<Rightarrow> 0 | Infinite \<Rightarrow> 0)"

text \<open>Every value of the column \<open>c\<close> is an integer.\<close>

definition int_column :: "dataframe \<Rightarrow> string \<Rightarrow> bool" where
  "int_column df c = list_all (\<lambda>v. case v of Num i \<Rightarrow> True | _ \<Rightarrow> False) (column_values df c)"

text \<open>The two coercions of a bulk upload, one after the other.\<close>

definition coerce_upload :: "(cell \<Rightarrow> numeric) \<Rightarrow> dataframe \<Rightarrow> py_error + dataframe" where
  "coerce_upload ext new_df =
     (case coerce_int_column ext ''Quantity'' new_df of
        Inl e \<Rightarrow> Inl e
      | Inr df1 \<Rightarrow> coerce_int_column ext ''Reorder Level'' df1)"

text \<open>
  A sample value for the parameter \<open>ext\<close>, for the concrete instances below: every cell
  that the fixed part of \<open>to_numeric\<close> leaves open fails to parse.
\<close>

definition no_other_numbers :: "cell \<Rightarrow> numeric" where
  "no_other_numbers c = NotNumber"

section \<open>Properties of the numerals\<close>

lemma digit_char_ascii: "d < 10 \<Longrightarrow> is_ascii_digit (digit_char d)"
  by (simp add: is_ascii_digit_def digit_char_def ord_def)

lemma digit_value_char: "d < 10 \<Longrightarrow> digit_value (digit_char d) = d"
  by (simp add: digit_value_def digit_char_def ord_def)

lemma str_nat_nonempty: "str_nat n \<noteq> []"
  by (subst str_nat.simps) simp

lemma str_nat_digits: "list_all is_ascii_digit (str_nat n)"
proof (induction n rule: str_nat.induct)
  case (1 n)
  show ?case
  proof (cases "n < 10")
    case True
    then show ?thesis by (subst str_nat.simps) (simp add: digit_char_ascii)
  next
    case False
    with 1 show ?thesis by (subst str_nat.simps) (simp add: digit_char_ascii)
  qed
qed

lemma digits_value_snoc: "digits_value (s @ [c]) = 10 * digits_value s + digit_value c"
  by (simp add: digits_value_def)

lemma digits_value_str_nat: "digits_value (str_nat n) = n"
proof (induction n rule: str_nat.induct)
  case (1 n)
  show ?case
  proof (cases "n < 10")
    case True
    then show ?thesis by (subst str_nat.simps) (simp add: digits_value_def digit_value_char)
  next
    case False
    with 1 show ?thesis
      by (subst str_nat.simps) (simp add: digits_value_snoc digit_value_char)
  qed
qed

lemma digits_value_zeros: "digits_value (replicate k (CHR ''0'') @ s) = digits_value s"
proof -
  have "foldl (\<lambda>acc c. 10 * acc + digit_value c) 0 (replicate k (CHR ''0'')) = 0"
    by (induction k) (simp_all add: digit_value_def ord_def)
  then show ?thesis by (simp add: digits_value_def)
qed

lemma zero_pad_digits:
  "list_all is_ascii_digit s \<Longrightarrow> list_all is_ascii_digit (zero_pad w s)"
  by (auto simp: zero_pad_def is_ascii_digit_def ord_def list_all_iff)

lemma zero_pad_nonempty: "s \<noteq> [] \<Longrightarrow> zero_pad w s \<noteq> []"
  by (simp add: zero_pad_def)

lemma digits_value_zero_pad: "digits_value (zero_pad w s) = digits_value s"
  by (simp add: zero_pad_def digits_value_zeros)

lemma ascii_digit_facts:
  "is_ascii_digit c \<Longrightarrow> \<not> is_space c \<and> c \<noteq> CHR ''-'' \<and> c \<noteq> CHR ''+'' \<and> c \<noteq> CHR ''_''"
  by (auto simp: is_ascii_digit_def is_space_def ord_def)

lemma isdigit_char_facts:
  "isdigit_char c \<Longrightarrow> \<not> is_space c \<and> c \<noteq> CHR ''-'' \<and> c \<noteq> CHR ''+'' \<and> c \<noteq> CHR ''_''"
  by (auto simp: isdigit_char_def is_ascii_digit_def is_space_def ord_def)

lemma strip_no_space:
  assumes "list_all (\<lambda>c. \<not> is_space c) s"
  shows "strip s = s"
proof -
  have a: "dropWhile is_space xs = xs" if "list_all (\<lambda>c. \<not> is_space c) xs" for xs
    using that by (cases xs) simp_all
  have "list_all (\<lambda>c. \<not> is_space c) (rev s)"
    using assms by (simp add: list_all_iff)
  then show ?thesis
    using assms by (simp add: strip_def a)
qed

lemma digit_groups_plain:
  "list_all (\<lambda>c. c \<noteq> CHR ''_'') s \<Longrightarrow>
     digit_groups b s = (list_all is_ascii_digit s \<and> (s \<noteq> [] \<or> b))"
  by (induction s arbitrary: b) auto

lemma filter_no_underscore:
  "list_all (\<lambda>c. c \<noteq> CHR ''_'') s \<Longrightarrow> filter (\<lambda>c. c \<noteq> CHR ''_'') s = s"
  by (induction s) auto

lemma length_str_nat: "0 < k \<Longrightarrow> (length (str_nat n) \<le> k) = (n < 10 ^ k)"
proof (induction n arbitrary: k rule: str_nat.induct)
  case (1 n)
  show ?case
  proof (cases "n < 10")
    case True
    have "(10 :: nat) ^ 1 \<le> 10 ^ k"
      using 1(2) by (intro power_increasing) simp_all
    with True have "n < 10 ^ k" by simp
    moreover have "length (str_nat n) = 1"
      using True by (subst str_nat.simps) simp
    ultimately show ?thesis using 1(2) by simp
  next
    case False
    have l: "length (str_nat n) = Suc (length (str_nat (n div 10)))"
      using False by (subst str_nat.simps) simp
    show ?thesis
    proof (cases "k = 1")
      case True
      have "0 < length (str_nat (n div 10))" using str_nat_nonempty by simp
      with l True False show ?thesis by simp
    next
      case k: False
      with 1(2) have k1: "0 < k - 1" by simp
      from 1(2) have p: "(10 :: nat) ^ k = 10 ^ (k - 1) * 10"
        by (cases k) simp_all
      have "(length (str_nat (n div 10)) \<le> k - 1) = (n div 10 < 10 ^ (k - 1))"
        using False k1 by (rule 1(1))
      also have "\<dots> = (n < 10 ^ k)"
        unfolding p by (simp add: div_less_iff_less_mult)
      finally show ?thesis using l 1(2) by auto
    qed
  qed
qed

lemma takeWhile_all: "list_all P s \<Longrightarrow> takeWhile P s = s \<and> dropWhile P s = []"
  by (induction s) auto

lemma filter_all: "list_all P s \<Longrightarrow> filter P s = s"
  by (induction s) auto

lemma int_of_numeral_digits:
  assumes "s \<noteq> []" and "list_all is_ascii_digit s"
  shows "int_of_numeral s =
           (if length s > int_max_str_digits then Inl digits_limit_error
            else Inr (int (digits_value s)))"
proof -
  have nc: "list_all numeral_char s"
    using assms(2) by (simp add: list_all_iff numeral_char_def)
  have nu: "list_all (\<lambda>c. c \<noteq> CHR ''_'') s"
    using assms(2) ascii_digit_facts by (auto simp: list_all_iff)
  have g: "digit_groups False s"
    using assms by (simp add: digit_groups_plain [OF nu])
  show ?thesis
    using assms(1) g
    by (simp add: int_of_numeral_def Let_def takeWhile_all [OF nc] filter_all [OF assms(2)]
        filter_no_underscore [OF nu])
qed

lemma int_of_numeral_garbage:
  assumes "\<not> list_all numeral_char s"
  shows "\<exists>e. int_of_numeral s = Inl e"
proof -
  from assms have "dropWhile numeral_char s \<noteq> []"
    by (simp add: dropWhile_eq_Nil_conv list_all_iff)
  then show ?thesis by (simp add: int_of_numeral_def Let_def)
qed

lemma py_int_isdigit:
  assumes "isdigit s"
  shows "(py_int s = Inr n) =
           (list_all is_ascii_digit s \<and> length s \<le> int_max_str_digits \<and> n = int (digits_value s))"
proof -
  from assms obtain c cs where s: "s = c # cs"
    by (cases s) (auto simp: isdigit_def)
  from assms have all: "list_all isdigit_char s" and ne: "s \<noteq> []"
    by (simp_all add: isdigit_def)
  have ns: "list_all (\<lambda>c. \<not> is_space c) s"
    using all isdigit_char_facts by (auto simp: list_all_iff)
  have c: "c \<noteq> CHR ''-'' \<and> c \<noteq> CHR ''+''"
    using all s isdigit_char_facts by auto
  have st: "strip (c # cs) = c # cs"
    using strip_no_space [OF ns] by (simp add: s)
  have p: "py_int s = int_of_numeral s"
    using c by (simp add: py_int_def s st)
  show ?thesis
  proof (cases "list_all is_ascii_digit s")
    case True
    from int_of_numeral_digits [OF ne True] True show ?thesis
      unfolding p by auto
  next
    case False
    have "\<not> list_all numeral_char s"
    proof
      assume "list_all numeral_char s"
      with all have "list_all is_ascii_digit s"
        using isdigit_char_facts by (auto simp: list_all_iff numeral_char_def)
      with False show False by simp
    qed
    from int_of_numeral_garbage [OF this] False show ?thesis
      unfolding p by auto
  qed
qed

lemma ascii_isdigit: "s \<noteq> [] \<Longrightarrow> list_all is_ascii_digit s \<Longrightarrow> isdigit s"
  by (auto simp: isdigit_def isdigit_char_def list_all_iff)

lemma length_zero_pad: "length (zero_pad w s) = max w (length s)"
  by (simp add: zero_pad_def)

lemma str_nat_bound:
  assumes "0 \<le> n" and "0 < k"
  shows "(k < length (str_nat (nat \<bar>n\<bar>))) = (\<not> n < 10 ^ k)"
proof -
  have "(length (str_nat (nat n)) \<le> k) = (nat n < 10 ^ k)"
    using assms(2) by (rule length_str_nat)
  also have "(nat n < 10 ^ k) = (n < 10 ^ k)"
    using assms(1) by (simp add: nat_less_iff)
  finally have "(length (str_nat (nat n)) \<le> k) = (n < 10 ^ k)" .
  moreover have "nat \<bar>n\<bar> = nat n" using assms(1) by simp
  ultimately show ?thesis by (auto simp: not_less not_le)
qed

lemma fmt03d_nonneg:
  assumes "0 \<le> n"
  shows "fmt03d n = (if n < 10 ^ int_max_str_digits then Inr (zero_pad 3 (str_nat (nat n)))
                 else Inl digits_limit_error)"
proof -
  have k: "0 < int_max_str_digits" by (simp add: int_max_str_digits_def)
  have a: "nat \<bar>n\<bar> = nat n" and b: "\<not> n < 0" using assms by simp_all
  show ?thesis
    unfolding fmt03d_def str_nat_bound [OF assms k] by (cases "n < 10 ^ int_max_str_digits") (simp_all only: a b if_False if_True not_True_eq_False not_False_eq_True)
qed

lemma fmt03d_ok:
  assumes "0 \<le> n" and "fmt03d n = Inr s"
  shows "isdigit s \<and> py_int s = Inr n"
proof -
  from assms have s: "s = zero_pad 3 (str_nat (nat n))"
    and l: "length (str_nat (nat n)) \<le> int_max_str_digits"
    by (auto simp: fmt03d_def split: if_splits)
  have d: "list_all is_ascii_digit s" and ne: "s \<noteq> []"
    by (simp_all add: s zero_pad_digits str_nat_digits zero_pad_nonempty str_nat_nonempty)
  have i: "isdigit s" using ne d by (rule ascii_isdigit)
  have "length s \<le> int_max_str_digits"
    using l by (simp add: s length_zero_pad int_max_str_digits_def)
  moreover have "int (digits_value s) = n"
    using assms(1) by (simp add: s digits_value_zero_pad digits_value_str_nat)
  ultimately show ?thesis
    using i d by (simp add: py_int_isdigit)
qed

lemma startswith_LAB: "startswith (upper v) ''LAB'' = (map upper_char (take 3 v) = ''LAB'')"
proof -
  have "length ''LAB'' = 3" by simp
  then show ?thesis unfolding startswith_def upper_def take_map by presburger
qed

lemma lab_match_iff:
  "(startswith (upper v) ''LAB'' \<and> isdigit (drop 3 v) \<and> py_int (drop 3 v) = Inr n)
     \<longleftrightarrow> (lab_scanned v \<and> n = lab_number v)"
proof (cases "isdigit (drop 3 v)")
  case True
  then show ?thesis
    unfolding startswith_LAB
    by (auto simp: py_int_isdigit lab_scanned_def lab_pattern_def lab_number_def isdigit_def)
next
  case False
  then have "\<not> (drop 3 v \<noteq> [] \<and> list_all is_ascii_digit (drop 3 v))"
    using ascii_isdigit by blast
  with False show ?thesis by (auto simp: lab_scanned_def lab_pattern_def)
qed

lemma set_lab_numbers: "set (lab_numbers vs) = lab_number ` {v \<in> set vs. lab_scanned v}"
proof (induction vs)
  case Nil
  show ?case by simp
next
  case (Cons v vs)
  show ?case
  proof (cases "lab_scanned v")
    case True
    then have "startswith (upper v) ''LAB'' \<and> isdigit (drop 3 v) \<and> py_int (drop 3 v) = Inr (lab_number v)"
      using lab_match_iff [of v "lab_number v"] by simp
    with True Cons show ?thesis by auto
  next
    case False
    then have "\<not> (startswith (upper v) ''LAB'' \<and> isdigit (drop 3 v) \<and> py_int (drop 3 v) = Inr n)" for n
      using lab_match_iff [of v n] by simp
    then have "lab_numbers (v # vs) = lab_numbers vs"
      by (cases "py_int (drop 3 v)") auto
    with False Cons show ?thesis by auto
  qed
qed

lemma lab_numbers_nonneg: "n \<in> set (lab_numbers vs) \<Longrightarrow> 0 \<le> n"
  by (auto simp: set_lab_numbers lab_number_def)

lemma fmt03d_1: "fmt03d 1 = Inr ''001''"
  by code_simp

lemma fmt03d_4: "fmt03d 4 = Inr ''004''"
  by code_simp

text \<open>The number that \<open>next_item_id\<close> formats.\<close>

lemma next_item_id_number:
  "next_item_id df =
     (let M = {v \<in> set (item_ids df). lab_scanned v};
          n = (if M = {} then 1 else Max (lab_number ` M) + 1)
      in case fmt03d n of Inl e \<Rightarrow> Inl e | Inr s \<Rightarrow> Inr (''LAB'' @ s))"
proof -
  define M where "M = {v \<in> set (item_ids df). lab_scanned v}"
  define nums where "nums = lab_numbers (item_ids df)"
  have s: "set nums = lab_number ` M"
    unfolding nums_def M_def by (rule set_lab_numbers)
  have e: "(nums \<noteq> []) = (M \<noteq> {})"
    using s by (metis image_is_empty set_empty)
  have "(if nums \<noteq> [] then Max (set nums) + 1 else 1) = (if M = {} then 1 else Max (lab_number ` M) + 1)"
    by (simp add: e s)
  then show ?thesis
    unfolding next_item_id_def Let_def nums_def [symmetric] M_def [symmetric] by simp
qed

lemma next_item_id_nonneg:
  "0 \<le> (if {v \<in> set vs. lab_scanned v} = {} then 1
         else Max (lab_number ` {v \<in> set vs. lab_scanned v}) + 1)"
proof (cases "{v \<in> set vs. lab_scanned v} = {}")
  case True
  then show ?thesis by simp
next
  case False
  have "finite (lab_number ` {v \<in> set vs. lab_scanned v})" by simp
  moreover from False have "lab_number ` {v \<in> set vs. lab_scanned v} \<noteq> {}" by simp
  ultimately have "Max (lab_number ` {v \<in> set vs. lab_scanned v}) \<in> lab_number ` {v \<in> set vs. lab_scanned v}"
    by (rule Max_in)
  then have "0 \<le> Max (lab_number ` {v \<in> set vs. lab_scanned v})"
    by (auto simp: lab_number_def)
  with False show ?thesis by simp
qed

lemma next_item_id_max:
  "next_item_id df =
     (let M = {v \<in> set (item_ids df). lab_scanned v};
          n = (if M = {} then 1 else Max (lab_number ` M) + 1)
      in if n < 10 ^ int_max_str_digits then Inr (''LAB'' @ zero_pad 3 (str_nat (nat n)))
         else Inl digits_limit_error)"
  unfolding next_item_id_number Let_def
  using next_item_id_nonneg [of "item_ids df"] by (simp add: fmt03d_nonneg)

lemma next_item_id_fresh:
  assumes "next_item_id df = Inr new_id"
  shows "new_id \<notin> set (item_ids df)"
proof
  assume mem: "new_id \<in> set (item_ids df)"
  define nums where "nums = lab_numbers (item_ids df)"
  define n where "n = (if nums \<noteq> [] then Max (set nums) + 1 else 1)"
  have "next_item_id df = (case fmt03d n of Inl e \<Rightarrow> Inl e | Inr s \<Rightarrow> Inr (''LAB'' @ s))"
    unfolding next_item_id_def Let_def n_def nums_def by (rule refl)
  with assms obtain s where f: "fmt03d n = Inr s" and id: "new_id = ''LAB'' @ s"
    by (cases "fmt03d n") auto
  have pos: "0 \<le> n"
  proof (cases "nums = []")
    case True
    then show ?thesis by (simp add: n_def)
  next
    case False
    then have "Max (set nums) \<in> set nums" by simp
    then have "0 \<le> Max (set nums)" unfolding nums_def by (rule lab_numbers_nonneg)
    with False show ?thesis by (simp add: n_def)
  qed
  have "lab_scanned (''LAB'' @ s) \<and> n = lab_number (''LAB'' @ s)"
    using fmt03d_ok [OF pos f] lab_match_iff [of "''LAB'' @ s" n]
    by (simp add: startswith_def upper_def upper_char_def ord_def)
  with mem have "n \<in> set nums"
    unfolding nums_def set_lab_numbers id by force
  then have "nums \<noteq> []" and "n \<le> Max (set nums)" by auto
  then show False by (simp add: n_def)
qed

lemma py_int_001: "py_int ''001'' = Inr 1"
proof -
  have "isdigit ''001''"
    by (simp add: isdigit_def isdigit_char_def is_ascii_digit_def ord_def)
  from py_int_isdigit [OF this, of 1] show ?thesis
    by (simp add: is_ascii_digit_def ord_def digits_value_def digit_value_def int_max_str_digits_def)
qed

lemma py_int_003: "py_int ''003'' = Inr 3"
proof -
  have "isdigit ''003''"
    by (simp add: isdigit_def isdigit_char_def is_ascii_digit_def ord_def)
  from py_int_isdigit [OF this, of 3] show ?thesis
    by (simp add: is_ascii_digit_def ord_def digits_value_def digit_value_def int_max_str_digits_def)
qed

section \<open>The next item id\<close>

lemma digits_value_nines: "Suc (digits_value (replicate k (CHR ''9''))) = 10 ^ k"
proof (induction k)
  case 0
  show ?case by (simp add: digits_value_def)
next
  case (Suc k)
  have "digits_value (replicate (Suc k) (CHR ''9'')) = digits_value (replicate k (CHR ''9'') @ [CHR ''9''])"
    by (simp add: replicate_append_same)
  also have "\<dots> = 10 * digits_value (replicate k (CHR ''9'')) + 9"
    by (simp only: digits_value_snoc) (simp add: digit_value_def ord_def)
  finally show ?case using Suc by simp
qed

lemma lab_pattern_nines: "0 < k \<Longrightarrow> lab_pattern (''LAB'' @ replicate k (CHR ''9''))"
  by (simp add: lab_pattern_def upper_char_def ord_def is_ascii_digit_def list_all_iff)

lemma lab_number_nines: "lab_number (''LAB'' @ replicate k (CHR ''9'')) + 1 = 10 ^ k"
proof -
  have "int (Suc (digits_value (replicate k (CHR ''9'')))) = int (10 ^ k)"
    by (simp only: digits_value_nines)
  then show ?thesis by (simp add: lab_number_def)
qed

lemma item_ids_single:
  "item_ids \<lparr>columns = default_cols, rows = [(\<lambda>c. NaN)(''Item ID'' := Str s)]\<rparr> = [s]"
  by (simp add: item_ids_def default_cols_def column_values_def)

text \<open>
  C2, as stated, fails on an id of more than 4300 digits: \<open>int()\<close> raises on it, the loop
  skips it, and a table whose only id is \<open>LAB\<close> followed by 4301 nines gets \<open>LAB001\<close>
  although that id matches the pattern. On \<open>LAB\<close> followed by 4300 nines the successor has
  4301 digits and the f-string raises, so that no id is returned.
\<close>

theorem next_item_id_long_id:
  "lab_pattern (''LAB'' @ replicate (Suc int_max_str_digits) (CHR ''9''))
   \<and> next_item_id \<lparr>columns = default_cols,
         rows = [(\<lambda>c. NaN)(''Item ID'' := Str (''LAB'' @ replicate (Suc int_max_str_digits) (CHR ''9'')))]\<rparr>
       = Inr ''LAB001''
   \<and> next_item_id \<lparr>columns = default_cols,
         rows = [(\<lambda>c. NaN)(''Item ID'' := Str (''LAB'' @ replicate int_max_str_digits (CHR ''9'')))]\<rparr>
       = Inl digits_limit_error"
proof -
  define k where "k = int_max_str_digits"
  have k: "0 < k" by (simp add: k_def int_max_str_digits_def)
  have one: "(1 :: int) < 10 ^ k" using k by (intro one_less_power) simp_all
  have p: "lab_pattern (''LAB'' @ replicate (Suc k) (CHR ''9''))"
    by (rule lab_pattern_nines) simp
  have "\<not> lab_scanned (''LAB'' @ replicate (Suc k) (CHR ''9''))"
    by (simp add: lab_scanned_def k_def)
  then have e: "{v \<in> set [''LAB'' @ replicate (Suc k) (CHR ''9'')]. lab_scanned v} = {}"
    by simp
  have s1: "zero_pad 3 (str_nat (nat 1)) = ''001''" by code_simp
  have a: "next_item_id \<lparr>columns = default_cols,
         rows = [(\<lambda>c. NaN)(''Item ID'' := Str (''LAB'' @ replicate (Suc k) (CHR ''9'')))]\<rparr>
       = Inr ''LAB001''"
    unfolding next_item_id_max Let_def item_ids_single e
    using one by (simp only: k_def s1 if_True append.simps refl)
  have "lab_scanned (''LAB'' @ replicate k (CHR ''9''))"
    using lab_pattern_nines [OF k] by (simp add: lab_scanned_def k_def)
  then have m: "{v \<in> set [''LAB'' @ replicate k (CHR ''9'')]. lab_scanned v}
      = {''LAB'' @ replicate k (CHR ''9'')}"
    by auto
  have b: "next_item_id \<lparr>columns = default_cols,
         rows = [(\<lambda>c. NaN)(''Item ID'' := Str (''LAB'' @ replicate k (CHR ''9'')))]\<rparr>
       = Inl digits_limit_error"
    unfolding next_item_id_max Let_def item_ids_single m
    using lab_number_nines [of k] by (simp add: k_def)
  from p a b show ?thesis unfolding k_def by (intro conjI)
qed

text \<open>
  C2: \<open>next_item_id\<close> looks at the ids of the Item ID column that match the pattern
  \<open>LAB\<close> followed by digits (the letters in either case), 4300 digits at most, and returns
  \<open>LAB\<close> followed by the zero-padded successor of the largest number found, or \<open>LAB001\<close>
  when no such id is there; it raises ValueError instead when that successor has more
  than 4300 digits. On a table that holds exactly the ids \<open>LAB001\<close> and \<open>LAB003\<close> it
  returns \<open>LAB004\<close>, and on the empty table \<open>LAB001\<close>.
\<close>

theorem next_item_id_successor:
  "next_item_id df =
     (let M = {v \<in> set (item_ids df). lab_scanned v};
          n = (if M = {} then 1 else Max (lab_number ` M) + 1)
      in if n < 10 ^ int_max_str_digits then Inr (''LAB'' @ zero_pad 3 (str_nat (nat n)))
         else Inl digits_limit_error)
   \<and> next_item_id \<lparr>columns = default_cols,
         rows = [(\<lambda>c. NaN)(''Item ID'' := Str ''LAB001''), (\<lambda>c. NaN)(''Item ID'' := Str ''LAB003'')]\<rparr>
       = Inr ''LAB004''
   \<and> next_item_id (empty_frame default_cols) = Inr ''LAB001''"
proof -
  have a: "next_item_id \<lparr>columns = default_cols,
         rows = [(\<lambda>c. NaN)(''Item ID'' := Str ''LAB001''), (\<lambda>c. NaN)(''Item ID'' := Str ''LAB003'')]\<rparr>
       = Inr ''LAB004''"
    by (simp add: next_item_id_def item_ids_def default_cols_def column_values_def startswith_def
        upper_def upper_char_def ord_def isdigit_def isdigit_char_def is_ascii_digit_def
        py_int_001 py_int_003 fmt03d_4)
  have b: "next_item_id (empty_frame default_cols) = Inr ''LAB001''"
    by (simp add: next_item_id_def item_ids_def empty_frame_def column_values_def fmt03d_1)
  from next_item_id_max [of df] a b show ?thesis by (intro conjI)
qed

section \<open>Loading the inventory\<close>

text \<open>
  C5: when the backing file does not exist, \<open>load_inventory\<close> raises nothing and returns
  the table with no rows and exactly the eleven columns Item ID, Item Name, Category,
  Quantity, Unit, Reorder Level, Supplier, Last Restocked, Expiry Date, Storage Location
  and Remarks.
\<close>

theorem load_inventory_missing_file:
  "load_inventory ext None =
     Inr \<lparr>columns = [''Item ID'', ''Item Name'', ''Category'', ''Quantity'', ''Unit'',
                     ''Reorder Level'', ''Supplier'', ''Last Restocked'', ''Expiry Date'',
                     ''Storage Location'', ''Remarks''],
          rows = []\<rparr>"
  by (simp add: load_inventory_def empty_frame_def default_cols_def)

section \<open>The users table\<close>

lemma columns_add_user_column:
  "set (columns (add_user_column c df)) = insert c (set (columns df))"
  by (auto simp: add_user_column_def set_constant_def)

lemma columns_load_users: "set user_cols \<subseteq> set (columns (load_users users))"
  by (cases users) (auto simp: load_users_def empty_frame_def user_cols_def columns_add_user_column)

lemma load_users_columns_nonempty: "columns (load_users users) \<noteq> []"
  using columns_load_users [of users] by (auto simp: user_cols_def)

text \<open>
  C6: \<open>delete_user_from_csv\<close> with a username that no row of the users table carries
  raises the error "Username not found." and writes nothing: the users file is the same
  after the call as before it.
\<close>

theorem delete_unknown_user:
  "Str name \<notin> set (column_values (load_users users) ''username'') \<Longrightarrow>
     delete_user_from_csv name users = (Inl (ValueError ''Username not found.''), users)"
  by (simp add: delete_user_from_csv_def Let_def)

theorem delete_unknown_user_witness:
  "Str ''bob'' \<notin> set (column_values (load_users (Some \<lparr>columns = user_cols,
        rows = [user_row ''alice'' ''00'' ''ab'' 1]\<rparr>)) ''username'')
   \<and> delete_user_from_csv ''bob'' (Some \<lparr>columns = user_cols,
        rows = [user_row ''alice'' ''00'' ''ab'' 1]\<rparr>)
       = (Inl (ValueError ''Username not found.''),
          Some \<lparr>columns = user_cols, rows = [user_row ''alice'' ''00'' ''ab'' 1]\<rparr>)"
proof -
  have h: "Str ''bob'' \<notin> set (column_values (load_users (Some \<lparr>columns = user_cols,
        rows = [user_row ''alice'' ''00'' ''ab'' 1]\<rparr>)) ''username'')"
    by (simp add: load_users_def user_cols_def add_user_column_def read_str_def column_values_def
        user_row_def na_values_def)
  from h delete_unknown_user [OF h] show ?thesis by simp
qed

text \<open>
  C8: a signed-in user is the admin if and only if the users table has a first row and
  the username of that row is theirs; the User Management tab shows the user management
  view to the admin and the fixed warning "Only the admin can manage users." to anyone
  else.
\<close>

theorem admin_is_first_row:
  "is_admin_user name users = (\<exists>r rs. rows (load_users users) = r # rs \<and> r ''username'' = Str name)
   \<and> user_management_tab name users =
       (if is_admin_user name users then UserManagement (load_users users)
        else Warning ''Only the admin can manage users.'')"
proof -
  have "is_admin_user name users = (\<exists>r rs. rows (load_users users) = r # rs \<and> r ''username'' = Str name)"
    using load_users_columns_nonempty [of users]
    by (cases "rows (load_users users)") (auto simp: is_admin_user_def Let_def df_empty_def)
  then show ?thesis by (simp add: user_management_tab_def Let_def)
qed

section \<open>Uniqueness of the item ids\<close>

lemma column_values_concat_row:
  "c \<in> set (columns df) \<Longrightarrow> c \<in> set keys \<Longrightarrow>
     column_values (concat_row df keys new_row) c = column_values df c @ [new_row c]"
  by (simp add: column_values_def concat_row_def)

lemma inventory_df_save: "inventory_df (save_inventory df a st) = df"
  by (simp add: save_inventory_def log_action_def)

lemma inventory_file_save: "inventory_file (save_inventory df a st) = Some df"
  by (simp add: save_inventory_def log_action_def)

lemma add_item_unique:
  assumes c: "''Item ID'' \<in> set (columns (inventory_df st))"
    and u: "unique_item_ids (inventory_df st)"
    and a: "add_item form st = Inr (out, st')"
  shows "unique_item_ids (inventory_df st')"
proof -
  define df where "df = inventory_df st"
  from a obtain new_id where n: "next_item_id df = Inr new_id"
    and s: "inventory_df st' = concat_row df default_cols (form_row new_id form)"
    unfolding add_item_def Let_def df_def
    by (cases "next_item_id (inventory_df st)") (auto simp: inventory_df_save)
  have fresh: "Str new_id \<notin> set (column_values df ''Item ID'')"
  proof
    assume "Str new_id \<in> set (column_values df ''Item ID'')"
    then have "astype_str (Str new_id) \<in> set (item_ids df)"
      using c unfolding item_ids_def df_def by (simp del: astype_str.simps)
    then show False using next_item_id_fresh [OF n] by simp
  qed
  have k: "''Item ID'' \<in> set default_cols" by (simp add: default_cols_def)
  have "column_values (concat_row df default_cols (form_row new_id form)) ''Item ID''
          = column_values df ''Item ID'' @ [Str new_id]"
    using c k by (simp add: column_values_concat_row df_def form_row_def)
  with fresh u show ?thesis
    by (simp add: s unique_item_ids_def df_def)
qed

lemma add_item_returns:
  "(\<exists>out st'. add_item form st = Inr (out, st')) = (\<exists>new_id. next_item_id (inventory_df st) = Inr new_id)"
  unfolding add_item_def Let_def by (cases "next_item_id (inventory_df st)") simp_all

lemma edit_item_unique:
  assumes u: "unique_item_ids (inventory_df st)"
    and e: "edit_item sel_id e_qty e_reorder e_remarks st = Inr (out, st')"
  shows "unique_item_ids (inventory_df st')"
proof -
  define df where "df = inventory_df st"
  define df' where "df' = df\<lparr>rows :=
       map (\<lambda>r. if cell_eq (r ''Item ID'') sel_id
                 then r(''Quantity'' := Num e_qty, ''Reorder Level'' := Num e_reorder,
                        ''Remarks'' := Str e_remarks)
                 else r) (rows df)\<rparr>"
  have same: "column_values df' ''Item ID'' = column_values df ''Item ID''"
    by (simp add: df'_def column_values_def)
  from e have "inventory_df st' = df \<or> inventory_df st' = df'"
    unfolding edit_item_def Let_def df'_def df_def
    by (auto simp: inventory_df_save split: if_splits list.splits sum.splits)
  with u same show ?thesis by (auto simp: unique_item_ids_def df_def)
qed

lemma delete_item_unique:
  assumes u: "unique_item_ids (inventory_df st)"
    and e: "delete_item del_id st = Inr (out, st')"
  shows "unique_item_ids (inventory_df st')"
proof -
  define df where "df = inventory_df st"
  define df' where "df' = df\<lparr>rows := filter (\<lambda>r. \<not> cell_eq (r ''Item ID'') del_id) (rows df)\<rparr>"
  have sub: "distinct (column_values df' ''Item ID'')"
    using u by (simp add: df'_def column_values_def unique_item_ids_def df_def distinct_map_filter)
  from e have "inventory_df st' = df \<or> inventory_df st' = df'"
    unfolding delete_item_def Let_def df'_def df_def
    by (auto simp: inventory_df_save split: if_splits list.splits sum.splits)
  with u sub show ?thesis by (auto simp: unique_item_ids_def df_def)
qed

lemma fmt03d_2: "fmt03d 2 = Inr ''002''"
  by code_simp

text \<open>
  C9, as the claim states it, fails: uniqueness of the Item ID is not preserved by every
  operation that changes the inventory. A bulk upload replaces the table by the uploaded
  one as it is: here the table of the session has no duplicate id, the upload holds
  \<open>LAB001\<close> twice, the upload is saved, and the table of the session then holds \<open>LAB001\<close>
  twice.
\<close>

theorem bulk_upload_duplicates:
  "unique_item_ids (inventory_df \<lparr>inventory_file = None, inventory_df = empty_frame default_cols,
                                   username = ''admin'', audit_log = []\<rparr>)
   \<and> fst (bulk_upload no_other_numbers
            \<lparr>columns = [''Item ID''],
             rows = [(\<lambda>c. NaN)(''Item ID'' := Str ''LAB001''), (\<lambda>c. NaN)(''Item ID'' := Str ''LAB001'')]\<rparr>
            \<lparr>inventory_file = None, inventory_df = empty_frame default_cols,
             username = ''admin'', audit_log = []\<rparr>) = Saved
   \<and> \<not> unique_item_ids (inventory_df (snd (bulk_upload no_other_numbers
            \<lparr>columns = [''Item ID''],
             rows = [(\<lambda>c. NaN)(''Item ID'' := Str ''LAB001''), (\<lambda>c. NaN)(''Item ID'' := Str ''LAB001'')]\<rparr>
            \<lparr>inventory_file = None, inventory_df = empty_frame default_cols,
             username = ''admin'', audit_log = []\<rparr>)))"
  by (simp add: bulk_upload_def coerce_int_column_def unique_item_ids_def column_values_def
      empty_frame_def inventory_df_save)

text \<open>
  C9, amended: the id that \<open>next_item_id\<close> returns differs from every id of the Item ID
  column, so from every id that matches the pattern; and when no two rows of the session
  table carry the same Item ID, the same holds after Add Item (with the id of
  \<open>next_item_id\<close>), after Edit Item and after Delete Item. Add Item goes through exactly
  when \<open>next_item_id\<close> returns an id. Bulk upload checks nothing of the kind.
\<close>

theorem item_ids_stay_unique:
  "(next_item_id df = Inr new_id \<longrightarrow> new_id \<notin> set (item_ids df))
   \<and> ((\<exists>out st'. add_item form st = Inr (out, st')) = (\<exists>i. next_item_id (inventory_df st) = Inr i))
   \<and> (''Item ID'' \<in> set (columns (inventory_df st)) \<and> unique_item_ids (inventory_df st)
        \<and> add_item form st = Inr (out0, st0)
        \<longrightarrow> unique_item_ids (inventory_df st0))
   \<and> (unique_item_ids (inventory_df st) \<and> edit_item sel_id e_qty e_reorder e_remarks st = Inr (out, st')
        \<longrightarrow> unique_item_ids (inventory_df st'))
   \<and> (unique_item_ids (inventory_df st) \<and> delete_item del_id st = Inr (out2, st'')
        \<longrightarrow> unique_item_ids (inventory_df st''))"
proof (intro conjI impI)
  show "new_id \<notin> set (item_ids df)" if "next_item_id df = Inr new_id"
    using that by (rule next_item_id_fresh)
  show "(\<exists>out st'. add_item form st = Inr (out, st')) = (\<exists>i. next_item_id (inventory_df st) = Inr i)"
    by (rule add_item_returns)
  show "unique_item_ids (inventory_df st0)"
    if "''Item ID'' \<in> set (columns (inventory_df st)) \<and> unique_item_ids (inventory_df st)
        \<and> add_item form st = Inr (out0, st0)"
    using that add_item_unique [of st form out0 st0] by simp
  show "unique_item_ids (inventory_df st')"
    if "unique_item_ids (inventory_df st) \<and> edit_item sel_id e_qty e_reorder e_remarks st = Inr (out, st')"
    using that edit_item_unique [of st sel_id e_qty e_reorder e_remarks out st'] by simp
  show "unique_item_ids (inventory_df st'')"
    if "unique_item_ids (inventory_df st) \<and> delete_item del_id st = Inr (out2, st'')"
    using that delete_item_unique [of st del_id out2 st''] by simp
qed

theorem item_ids_stay_unique_witness:
  "next_item_id \<lparr>columns = default_cols, rows = [(\<lambda>c. NaN)(''Item ID'' := Str ''LAB001'')]\<rparr>
     = Inr ''LAB002''
   \<and> ''LAB002'' \<notin> set (item_ids \<lparr>columns = default_cols, rows = [(\<lambda>c. NaN)(''Item ID'' := Str ''LAB001'')]\<rparr>)
   \<and> ''Item ID'' \<in> set (columns (inventory_df
         \<lparr>inventory_file = None,
          inventory_df = \<lparr>columns = default_cols, rows = [(\<lambda>c. NaN)(''Item ID'' := Str ''LAB001'')]\<rparr>,
          username = ''admin'', audit_log = []\<rparr>))
   \<and> unique_item_ids (inventory_df
         \<lparr>inventory_file = None,
          inventory_df = \<lparr>columns = default_cols, rows = [(\<lambda>c. NaN)(''Item ID'' := Str ''LAB001'')]\<rparr>,
          username = ''admin'', audit_log = []\<rparr>)
   \<and> (\<exists>st0. add_item
         \<lparr>item_name = ''Gloves'', category = ''PPE'', quantity = 5, unit_name = ''Boxes'',
          reorder_level = 1, supplier = ''Acme'', last_restocked = ''2025-10-22'',
          expiry_date = [], storage_location = ''Shelf A'', remarks = []\<rparr>
         \<lparr>inventory_file = None,
          inventory_df = \<lparr>columns = default_cols, rows = [(\<lambda>c. NaN)(''Item ID'' := Str ''LAB001'')]\<rparr>,
          username = ''admin'', audit_log = []\<rparr> = Inr (Saved, st0)
        \<and> unique_item_ids (inventory_df st0))
   \<and> (\<exists>st'. edit_item (Str ''LAB001'') 7 2 ''checked''
         \<lparr>inventory_file = None,
          inventory_df = \<lparr>columns = default_cols, rows = [(\<lambda>c. NaN)(''Item ID'' := Str ''LAB001'')]\<rparr>,
          username = ''admin'', audit_log = []\<rparr> = Inr (Saved, st')
        \<and> unique_item_ids (inventory_df st'))
   \<and> (\<exists>st''. delete_item (Str ''LAB001'')
         \<lparr>inventory_file = None,
          inventory_df = \<lparr>columns = default_cols, rows = [(\<lambda>c. NaN)(''Item ID'' := Str ''LAB001'')]\<rparr>,
          username = ''admin'', audit_log = []\<rparr> = Inr (Saved, st'')
        \<and> unique_item_ids (inventory_df st''))"
proof -
  define D where "D = \<lparr>columns = default_cols, rows = [(\<lambda>c. NaN)(''Item ID'' := Str ''LAB001'')]\<rparr>"
  define S where "S = \<lparr>inventory_file = None, inventory_df = D, username = ''admin'', audit_log = []\<rparr>"
  define F where "F = \<lparr>item_name = ''Gloves'', category = ''PPE'', quantity = 5, unit_name = ''Boxes'',
          reorder_level = 1, supplier = ''Acme'', last_restocked = ''2025-10-22'',
          expiry_date = [], storage_location = ''Shelf A'', remarks = []\<rparr>"
  have n: "next_item_id D = Inr ''LAB002''"
    by (simp add: D_def next_item_id_def item_ids_def default_cols_def column_values_def
        startswith_def upper_def upper_char_def ord_def isdigit_def isdigit_char_def
        is_ascii_digit_def py_int_001 fmt03d_2)
  have c: "''Item ID'' \<in> set (columns (inventory_df S))"
    by (simp add: S_def D_def default_cols_def)
  have u: "unique_item_ids (inventory_df S)"
    by (simp add: S_def D_def unique_item_ids_def column_values_def)
  have "inventory_df S = D" by (simp add: S_def)
  with n obtain st0 where a: "add_item F S = Inr (Saved, st0)"
    by (simp add: add_item_def Let_def)
  obtain st' where e: "edit_item (Str ''LAB001'') 7 2 ''checked'' S = Inr (Saved, st')"
    by (simp add: edit_item_def S_def D_def default_cols_def df_empty_def cell_eq_def
        read_old_value_def old_value_def)
  obtain st'' where d: "delete_item (Str ''LAB001'') S = Inr (Saved, st'')"
    by (simp add: delete_item_def S_def D_def default_cols_def df_empty_def cell_eq_def
        read_old_value_def old_value_def)
  note t = item_ids_stay_unique [where df = D and new_id = "''LAB002''" and st = S and form = F
      and ?out0.0 = Saved and ?st0.0 = st0
      and sel_id = "Str ''LAB001''"
      and e_qty = 7 and e_reorder = 2 and e_remarks = "''checked''" and out = Saved and st' = st'
      and del_id = "Str ''LAB001''" and ?out2.0 = Saved and st'' = st'']
  have 1: "''LAB002'' \<notin> set (item_ids D)"
    by (rule t [THEN conjunct1, THEN mp, OF n])
  have 2: "unique_item_ids (inventory_df st0)"
    by (rule t [THEN conjunct2, THEN conjunct2, THEN conjunct1, THEN mp, OF conjI [OF c conjI [OF u a]]])
  have 3: "unique_item_ids (inventory_df st')"
    by (rule t [THEN conjunct2, THEN conjunct2, THEN conjunct2, THEN conjunct1, THEN mp, OF conjI [OF u e]])
  have 4: "unique_item_ids (inventory_df st'')"
    by (rule t [THEN conjunct2, THEN conjunct2, THEN conjunct2, THEN conjunct2, THEN mp, OF conjI [OF u d]])
  from a 2 have A: "\<exists>st0. add_item F S = Inr (Saved, st0) \<and> unique_item_ids (inventory_df st0)"
    by (intro exI conjI)
  from e 3 have E: "\<exists>st'. edit_item (Str ''LAB001'') 7 2 ''checked'' S = Inr (Saved, st')
        \<and> unique_item_ids (inventory_df st')"
    by (intro exI conjI)
  from d 4 have Dl: "\<exists>st''. delete_item (Str ''LAB001'') S = Inr (Saved, st'')
        \<and> unique_item_ids (inventory_df st'')"
    by (intro exI conjI)
  from n 1 c u A E Dl show ?thesis unfolding S_def D_def F_def by (intro conjI)
qed

section \<open>The numeric columns\<close>

lemma astype_int_Inr:
  "astype_int xs = Inr ys \<Longrightarrow>
     ys = map (\<lambda>x. Num (case x of Finite i \<Rightarrow> i | NotNumber \<Rightarrow> 0 | Infinite \<Rightarrow> 0)) xs
     \<and> list_all (\<lambda>x. case x of Finite i \<Rightarrow> True | _ \<Rightarrow> False) xs"
proof (induction xs arbitrary: ys)
  case Nil
  then show ?case by simp
next
  case (Cons x xs)
  then show ?case by (cases x) (auto split: sum.splits)
qed

lemma fillna0_coerced:
  "(case fillna0 (to_numeric ext v) of Finite i \<Rightarrow> i | NotNumber \<Rightarrow> 0 | Infinite \<Rightarrow> 0) = coerced_int ext v"
  by (cases "to_numeric ext v") (simp_all add: coerced_int_def)

lemma column_values_set_column_values:
  "length vs = length (rows df) \<Longrightarrow>
     column_values (set_column_values c vs df) c' = (if c' = c then vs else column_values df c')"
proof -
  have a: "length vs = length rs \<Longrightarrow> map (\<lambda>r. r c') (map2 (\<lambda>r v. r(c := v)) rs vs)
         = (if c' = c then vs else map (\<lambda>r. r c') rs)" for rs :: "row list"
    by (induction rs vs rule: list_induct2') auto
  assume "length vs = length (rows df)"
  from a [OF this] show ?thesis
    by (simp add: column_values_def set_column_values_def)
qed

lemma coerce_int_column_Inr:
  assumes "coerce_int_column ext c df = Inr df'"
  shows "columns df' = columns df"
    and "length (rows df') = length (rows df)"
    and "c \<in> set (columns df) \<Longrightarrow>
           column_values df' c = map (\<lambda>v. Num (coerced_int ext v)) (column_values df c)"
    and "c' \<noteq> c \<Longrightarrow> column_values df' c' = column_values df c'"
proof -
  show "columns df' = columns df"
    using assms by (auto simp: coerce_int_column_def set_column_values_def split: if_splits sum.splits)
  show "length (rows df') = length (rows df)"
  proof (cases "c \<in> set (columns df)")
    case False
    with assms show ?thesis by (simp add: coerce_int_column_def)
  next
    case True
    with assms obtain vs where
      vs: "astype_int (map (\<lambda>v. fillna0 (to_numeric ext v)) (column_values df c)) = Inr vs"
      and d: "df' = set_column_values c vs df"
      by (auto simp: coerce_int_column_def split: sum.splits)
    from astype_int_Inr [OF vs] have "length vs = length (rows df)"
      by (simp add: column_values_def)
    then show ?thesis by (simp add: d set_column_values_def)
  qed
  show "column_values df' c = map (\<lambda>v. Num (coerced_int ext v)) (column_values df c)"
    if "c \<in> set (columns df)"
  proof -
    from that assms obtain vs where
      vs: "astype_int (map (\<lambda>v. fillna0 (to_numeric ext v)) (column_values df c)) = Inr vs"
      and d: "df' = set_column_values c vs df"
      by (auto simp: coerce_int_column_def split: sum.splits)
    from astype_int_Inr [OF vs]
    have v: "vs = map (\<lambda>v. Num (coerced_int ext v)) (column_values df c)"
      by (simp add: fillna0_coerced o_def)
    then have "length vs = length (rows df)" by (simp add: column_values_def)
    then show ?thesis by (simp add: d column_values_set_column_values v)
  qed
  show "column_values df' c' = column_values df c'" if "c' \<noteq> c"
  proof (cases "c \<in> set (columns df)")
    case False
    with assms show ?thesis by (simp add: coerce_int_column_def)
  next
    case True
    with assms obtain vs where
      vs: "astype_int (map (\<lambda>v. fillna0 (to_numeric ext v)) (column_values df c)) = Inr vs"
      and d: "df' = set_column_values c vs df"
      by (auto simp: coerce_int_column_def split: sum.splits)
    from astype_int_Inr [OF vs] have "length vs = length (rows df)"
      by (simp add: column_values_def)
    then show ?thesis using that by (simp add: d column_values_set_column_values)
  qed
qed

lemma int_column_map_Num: "column_values df c = map (\<lambda>v. Num (g v)) xs \<Longrightarrow> int_column df c"
  by (simp add: int_column_def list_all_iff)

lemma column_values_set_constant:
  "column_values (set_constant c v df) c' =
     (if c' = c then replicate (length (rows df)) v else column_values df c')"
  by (simp add: set_constant_def column_values_def o_def map_replicate_const)

lemma columns_add_default:
  "set (columns (add_default_column c df)) = insert c (set (columns df))"
  by (auto simp: add_default_column_def set_constant_def)

lemma length_rows_add_default: "length (rows (add_default_column c df)) = length (rows df)"
  by (simp add: add_default_column_def set_constant_def)

lemma column_values_add_default:
  "column_values (add_default_column c df) c' =
     (if c' = c \<and> c \<notin> set (columns df)
      then replicate (length (rows df)) (default_cell c')
      else column_values df c')"
  by (simp add: add_default_column_def column_values_set_constant)

lemma columns_fold_add_default:
  "set (columns (fold add_default_column cs df)) = set (columns df) \<union> set cs"
  by (induction cs arbitrary: df) (auto simp: columns_add_default)

lemma column_values_fold_add_default:
  "column_values (fold add_default_column cs df) c' =
     (if c' \<in> set cs \<and> c' \<notin> set (columns df)
      then replicate (length (rows df)) (default_cell c')
      else column_values df c')"
proof (induction cs arbitrary: df)
  case Nil
  show ?case by simp
next
  case (Cons c cs)
  show ?case
    by (auto simp: Cons.IH columns_add_default column_values_add_default length_rows_add_default)
qed

lemma select_columns_Inr:
  "set cols \<subseteq> set (columns df) \<Longrightarrow>
     \<exists>df'. select_columns cols df = Inr df' \<and> columns df' = cols
        \<and> (\<forall>c \<in> set cols. column_values df' c = column_values df c)"
  by (auto simp: select_columns_def list_all_iff column_values_def)

lemma column_values_read_str:
  "column_values (read_str f) c = map read_str_cell (column_values f c)"
  by (simp add: read_str_def column_values_def)

lemma columns_read_str: "columns (read_str f) = columns f"
  by (simp add: read_str_def)

lemma load_inventory_Some:
  assumes "load_inventory ext (Some f) = Inr df"
    and c: "c = ''Quantity'' \<or> c = ''Reorder Level''"
  shows "column_values df c =
           (if c \<in> set (columns f)
            then map (\<lambda>v. Num (coerced_int ext (read_str_cell v))) (column_values f c)
            else replicate (length (rows f)) (Num 0))"
proof -
  from assms(1) obtain df1 df2 where
    d1: "coerce_int_column ext ''Quantity'' (read_str f) = Inr df1" and
    d2: "coerce_int_column ext ''Reorder Level'' df1 = Inr df2" and
    d3: "select_columns default_cols (fold add_default_column default_cols df2) = Inr df"
    by (auto simp: load_inventory_def split: sum.splits)
  have cols: "columns df2 = columns f"
    using coerce_int_column_Inr(1) [OF d1] coerce_int_column_Inr(1) [OF d2]
    by (simp add: columns_read_str)
  have len: "length (rows df2) = length (rows f)"
    using coerce_int_column_Inr(2) [OF d1] coerce_int_column_Inr(2) [OF d2]
    by (simp add: read_str_def)
  have cd: "c \<in> set default_cols"
    using c by (auto simp: default_cols_def)
  have dc: "default_cell c = Num 0"
    using c by (auto simp: default_cell_def)
  from select_columns_Inr [of default_cols "fold add_default_column default_cols df2"] d3 cd
  have "column_values df c = column_values (fold add_default_column default_cols df2) c"
    by (auto simp: columns_fold_add_default)
  then have a: "column_values df c =
      (if c \<notin> set (columns f) then replicate (length (rows f)) (Num 0) else column_values df2 c)"
    using cd by (simp add: column_values_fold_add_default cols len dc)
  have b: "column_values df2 c = map (\<lambda>v. Num (coerced_int ext (read_str_cell v))) (column_values f c)"
    if m: "c \<in> set (columns f)"
  proof (cases "c = ''Quantity''")
    case True
    have "column_values df2 ''Quantity'' = column_values df1 ''Quantity''"
      by (rule coerce_int_column_Inr(4) [OF d2]) simp
    also have "\<dots> = map (\<lambda>v. Num (coerced_int ext v)) (column_values (read_str f) ''Quantity'')"
      using m True by (intro coerce_int_column_Inr(3) [OF d1]) (simp add: columns_read_str)
    finally show ?thesis by (simp add: True column_values_read_str o_def)
  next
    case False
    with c have r: "c = ''Reorder Level''" by simp
    have m1: "''Reorder Level'' \<in> set (columns df1)"
      using m r coerce_int_column_Inr(1) [OF d1] by (simp add: columns_read_str)
    have "column_values df2 ''Reorder Level'' = map (\<lambda>v. Num (coerced_int ext v)) (column_values df1 ''Reorder Level'')"
      by (rule coerce_int_column_Inr(3) [OF d2 m1])
    also have "column_values df1 ''Reorder Level'' = column_values (read_str f) ''Reorder Level''"
      by (rule coerce_int_column_Inr(4) [OF d1]) simp
    finally show ?thesis by (simp add: r column_values_read_str o_def)
  qed
  from a b show ?thesis by auto
qed

lemma load_inventory_int_column:
  assumes "load_inventory ext users = Inr df"
    and c: "c = ''Quantity'' \<or> c = ''Reorder Level''"
  shows "int_column df c"
proof (cases users)
  case None
  with assms show ?thesis
    by (auto simp: load_inventory_def empty_frame_def int_column_def column_values_def)
next
  case (Some f)
  with assms load_inventory_Some [of ext f df c] show ?thesis
    by (auto simp: int_column_def list_all_iff)
qed

lemma coerce_upload_Inr:
  assumes "coerce_upload ext new_df = Inr df"
    and c: "c = ''Quantity'' \<or> c = ''Reorder Level''"
    and m: "c \<in> set (columns new_df)"
  shows "column_values df c = map (\<lambda>v. Num (coerced_int ext v)) (column_values new_df c)"
proof -
  from assms(1) obtain df1 where
    d1: "coerce_int_column ext ''Quantity'' new_df = Inr df1" and
    d2: "coerce_int_column ext ''Reorder Level'' df1 = Inr df"
    by (auto simp: coerce_upload_def split: sum.splits)
  show ?thesis
  proof (cases "c = ''Quantity''")
    case True
    have "column_values df ''Quantity'' = column_values df1 ''Quantity''"
      by (rule coerce_int_column_Inr(4) [OF d2]) simp
    also have "\<dots> = map (\<lambda>v. Num (coerced_int ext v)) (column_values new_df ''Quantity'')"
      using m True by (intro coerce_int_column_Inr(3) [OF d1]) simp
    finally show ?thesis by (simp add: True)
  next
    case False
    with c have r: "c = ''Reorder Level''" by simp
    have m1: "''Reorder Level'' \<in> set (columns df1)"
      using m r coerce_int_column_Inr(1) [OF d1] by simp
    have "column_values df ''Reorder Level'' = map (\<lambda>v. Num (coerced_int ext v)) (column_values df1 ''Reorder Level'')"
      by (rule coerce_int_column_Inr(3) [OF d2 m1])
    also have "column_values df1 ''Reorder Level'' = column_values new_df ''Reorder Level''"
      by (rule coerce_int_column_Inr(4) [OF d1]) simp
    finally show ?thesis by (simp add: r)
  qed
qed

lemma coerce_upload_columns:
  assumes "coerce_upload ext new_df = Inr df"
  shows "columns df = columns new_df \<and> length (rows df) = length (rows new_df)
         \<and> (\<forall>c. c \<noteq> ''Quantity'' \<and> c \<noteq> ''Reorder Level'' \<longrightarrow> column_values df c = column_values new_df c)"
proof -
  from assms(1) obtain df1 where
    d1: "coerce_int_column ext ''Quantity'' new_df = Inr df1" and
    d2: "coerce_int_column ext ''Reorder Level'' df1 = Inr df"
    by (auto simp: coerce_upload_def split: sum.splits)
  show ?thesis
    using coerce_int_column_Inr(1,2) [OF d1] coerce_int_column_Inr(1,2) [OF d2]
      coerce_int_column_Inr(4) [OF d1] coerce_int_column_Inr(4) [OF d2]
    by simp
qed

lemma bulk_upload_cases:
  "bulk_upload ext new_df st =
     (if ''Item ID'' \<notin> set (columns new_df)
      then (ErrorMessage ''Uploaded file must contain 'Item ID' column.'', st)
      else (case coerce_upload ext new_df of
              Inl e \<Rightarrow> (CouldNotRead e, st)
            | Inr df \<Rightarrow> (Saved, save_inventory df (''Bulk inventory upload by '' @ username st) st)))"
  by (simp add: bulk_upload_def coerce_upload_def split: sum.splits)

lemma astype_int_finite:
  "list_all (\<lambda>x. x \<noteq> Infinite \<and> x \<noteq> NotNumber) xs \<Longrightarrow> \<exists>ys. astype_int xs = Inr ys"
proof (induction xs)
  case Nil
  show ?case by simp
next
  case (Cons x xs)
  then show ?case by (cases x) auto
qed

lemma fillna0_not_nan: "fillna0 x \<noteq> NotNumber"
  by (cases x) simp_all

lemma fillna0_infinite: "(fillna0 x = Infinite) = (x = Infinite)"
  by (cases x) simp_all

lemma coerce_int_column_returns:
  assumes "c \<in> set (columns df) \<longrightarrow> list_all (\<lambda>v. to_numeric ext v \<noteq> Infinite) (column_values df c)"
  shows "\<exists>df'. coerce_int_column ext c df = Inr df'"
proof (cases "c \<in> set (columns df)")
  case False
  then show ?thesis by (simp add: coerce_int_column_def)
next
  case True
  with assms have "list_all (\<lambda>x. x \<noteq> Infinite \<and> x \<noteq> NotNumber)
      (map (\<lambda>v. fillna0 (to_numeric ext v)) (column_values df c))"
    by (simp add: list_all_iff fillna0_not_nan fillna0_infinite)
  from astype_int_finite [OF this] True show ?thesis
    by (auto simp: coerce_int_column_def)
qed

lemma coerce_upload_returns:
  assumes q: "''Quantity'' \<in> set (columns df) \<longrightarrow>
        list_all (\<lambda>v. to_numeric ext v \<noteq> Infinite) (column_values df ''Quantity'')"
    and r: "''Reorder Level'' \<in> set (columns df) \<longrightarrow>
        list_all (\<lambda>v. to_numeric ext v \<noteq> Infinite) (column_values df ''Reorder Level'')"
  shows "\<exists>df'. coerce_upload ext df = Inr df'"
proof -
  from coerce_int_column_returns [of "''Quantity''" df ext] q
  obtain df1 where d1: "coerce_int_column ext ''Quantity'' df = Inr df1" by blast
  have "column_values df1 ''Reorder Level'' = column_values df ''Reorder Level''"
    by (rule coerce_int_column_Inr(4) [OF d1]) simp
  with r coerce_int_column_Inr(1) [OF d1]
  have "''Reorder Level'' \<in> set (columns df1) \<longrightarrow>
        list_all (\<lambda>v. to_numeric ext v \<noteq> Infinite) (column_values df1 ''Reorder Level'')"
    by simp
  from coerce_int_column_returns [of "''Reorder Level''" df1 ext] this
  obtain df2 where "coerce_int_column ext ''Reorder Level'' df1 = Inr df2" by blast
  with d1 show ?thesis by (simp add: coerce_upload_def)
qed

lemma load_inventory_coerce_upload:
  "load_inventory ext (Some f) =
     (case coerce_upload ext (read_str f) of
        Inl e \<Rightarrow> Inl e
      | Inr df2 \<Rightarrow> select_columns default_cols (fold add_default_column default_cols df2))"
  by (simp add: load_inventory_def coerce_upload_def split: sum.splits)

lemma load_inventory_returns:
  assumes q: "''Quantity'' \<in> set (columns f) \<longrightarrow>
        list_all (\<lambda>v. to_numeric ext (read_str_cell v) \<noteq> Infinite) (column_values f ''Quantity'')"
    and r: "''Reorder Level'' \<in> set (columns f) \<longrightarrow>
        list_all (\<lambda>v. to_numeric ext (read_str_cell v) \<noteq> Infinite) (column_values f ''Reorder Level'')"
  shows "\<exists>df. load_inventory ext (Some f) = Inr df"
proof -
  from q r coerce_upload_returns [of "read_str f" ext]
  obtain df2 where u: "coerce_upload ext (read_str f) = Inr df2"
    by (auto simp: columns_read_str column_values_read_str list_all_iff)
  from select_columns_Inr [of default_cols "fold add_default_column default_cols df2"]
  obtain df where "select_columns default_cols (fold add_default_column default_cols df2) = Inr df"
    by (auto simp: columns_fold_add_default)
  with u show ?thesis by (simp add: load_inventory_coerce_upload)
qed

lemma plain_int_m5: "plain_int ''-5'' = Some (- 5)"
  by (simp add: plain_int_def is_ascii_digit_def ord_def digits_value_def digit_value_def)

lemma plain_int_12: "plain_int ''12'' = Some 12"
  by (simp add: plain_int_def is_ascii_digit_def ord_def digits_value_def digit_value_def)

lemma plain_int_inf: "plain_int ''inf'' = None"
  by (simp add: plain_int_def is_ascii_digit_def ord_def)

lemma plain_int_ten: "plain_int ''ten'' = None"
  by (simp add: plain_int_def is_ascii_digit_def ord_def)

text \<open>
  C3, as the claim states it, fails: the values are integers, but not always
  non-negative. A file whose Quantity cell reads \<open>-5\<close> loads with the quantity \<open>-5\<close>;
  neither \<open>load_inventory\<close> nor the bulk upload compares a value with 0.
\<close>

theorem load_inventory_negative_quantity:
  "(case load_inventory no_other_numbers
           (Some \<lparr>columns = [''Item ID'', ''Quantity''],
                  rows = [(\<lambda>c. NaN)(''Item ID'' := Str ''LAB001'', ''Quantity'' := Str ''-5'')]\<rparr>) of
      Inr df \<Rightarrow> column_values df ''Quantity''
    | Inl e \<Rightarrow> []) = [Num (- 5)]"
  by (simp add: load_inventory_def read_str_def coerce_int_column_def column_values_def
      set_column_values_def na_values_def to_numeric_def plain_int_m5 float_exact_def
      default_cols_def add_default_column_def set_constant_def select_columns_def)

text \<open>
  C3, amended: after \<open>load_inventory\<close> returns, every value of the columns Quantity and
  Reorder Level is an integer; for a column the file has, it is the number the cell
  parses to, with its sign, and 0 when the cell does not parse as a number. The same
  holds for these columns of a bulk upload that was saved.
\<close>

theorem numeric_columns_are_integers:
  "(load_inventory ext src = Inr df \<and> c \<in> {''Quantity'', ''Reorder Level''} \<longrightarrow> int_column df c)
   \<and> (load_inventory ext (Some f) = Inr df \<and> c \<in> {''Quantity'', ''Reorder Level''}
        \<and> c \<in> set (columns f)
        \<longrightarrow> column_values df c = map (\<lambda>v. Num (coerced_int ext (read_str_cell v))) (column_values f c))
   \<and> (bulk_upload ext new_df st = (Saved, st') \<and> c \<in> {''Quantity'', ''Reorder Level''}
        \<and> c \<in> set (columns new_df)
        \<longrightarrow> column_values (inventory_df st') c = map (\<lambda>v. Num (coerced_int ext v)) (column_values new_df c))
   \<and> (to_numeric ext v = NotNumber \<longrightarrow> coerced_int ext v = 0)"
proof -
  have a: "int_column df c"
    if "load_inventory ext src = Inr df" "c \<in> {''Quantity'', ''Reorder Level''}"
    using that load_inventory_int_column [of ext src df c] by simp
  have b: "column_values df c = map (\<lambda>v. Num (coerced_int ext (read_str_cell v))) (column_values f c)"
    if "load_inventory ext (Some f) = Inr df" "c \<in> {''Quantity'', ''Reorder Level''}" "c \<in> set (columns f)"
    using that load_inventory_Some [of ext f df c] by simp
  have d: "column_values (inventory_df st') c = map (\<lambda>v. Num (coerced_int ext v)) (column_values new_df c)"
    if s: "bulk_upload ext new_df st = (Saved, st')" and c: "c \<in> {''Quantity'', ''Reorder Level''}"
      and m: "c \<in> set (columns new_df)"
  proof -
    from s obtain df2 where u: "coerce_upload ext new_df = Inr df2" and i: "inventory_df st' = df2"
      unfolding bulk_upload_cases by (auto simp: inventory_df_save split: if_splits sum.splits)
    from coerce_upload_Inr [OF u _ m] c i show ?thesis by simp
  qed
  have e: "coerced_int ext v = 0" if "to_numeric ext v = NotNumber"
    using that by (simp add: coerced_int_def)
  from a b d e show ?thesis by blast
qed

theorem numeric_columns_are_integers_witness:
  "(\<exists>df. load_inventory no_other_numbers
           (Some \<lparr>columns = [''Item ID'', ''Quantity''],
                  rows = [(\<lambda>c. NaN)(''Item ID'' := Str ''LAB001'', ''Quantity'' := Str ''12''),
                          (\<lambda>c. NaN)(''Item ID'' := Str ''LAB002'', ''Quantity'' := Str ''-5''),
                          (\<lambda>c. NaN)(''Item ID'' := Str ''LAB003'', ''Quantity'' := Str ''ten'')]\<rparr>) = Inr df
      \<and> int_column df ''Quantity''
      \<and> column_values df ''Quantity'' = [Num 12, Num (- 5), Num 0])
   \<and> (\<exists>st'. bulk_upload no_other_numbers
           \<lparr>columns = [''Item ID'', ''Quantity''],
            rows = [(\<lambda>c. NaN)(''Item ID'' := Str ''LAB001'', ''Quantity'' := Str ''12''),
                    (\<lambda>c. NaN)(''Item ID'' := Str ''LAB002'', ''Quantity'' := Str ''-5''),
                    (\<lambda>c. NaN)(''Item ID'' := Str ''LAB003'', ''Quantity'' := Str ''ten'')]\<rparr>
           \<lparr>inventory_file = None, inventory_df = empty_frame default_cols,
            username = ''admin'', audit_log = []\<rparr> = (Saved, st')
      \<and> column_values (inventory_df st') ''Quantity'' = [Num 12, Num (- 5), Num 0])
   \<and> to_numeric no_other_numbers (Str ''ten'') = NotNumber
   \<and> coerced_int no_other_numbers (Str ''ten'') = 0"
proof -
  define F where "F = \<lparr>columns = [''Item ID'', ''Quantity''],
                  rows = [(\<lambda>c. NaN)(''Item ID'' := Str ''LAB001'', ''Quantity'' := Str ''12''),
                          (\<lambda>c. NaN)(''Item ID'' := Str ''LAB002'', ''Quantity'' := Str ''-5''),
                          (\<lambda>c. NaN)(''Item ID'' := Str ''LAB003'', ''Quantity'' := Str ''ten'')]\<rparr>"
  define S where "S = \<lparr>inventory_file = None, inventory_df = empty_frame default_cols,
            username = ''admin'', audit_log = []\<rparr>"
  have n: "to_numeric no_other_numbers (Str ''ten'') = NotNumber"
    by (simp add: to_numeric_def plain_int_ten no_other_numbers_def)
  have vals: "map (\<lambda>v. Num (coerced_int no_other_numbers v)) (column_values F ''Quantity'')
                = [Num 12, Num (- 5), Num 0]"
    by (simp add: F_def column_values_def coerced_int_def to_numeric_def plain_int_12 plain_int_m5
        plain_int_ten float_exact_def no_other_numbers_def)
  have rd: "map read_str_cell (column_values F ''Quantity'') = column_values F ''Quantity''"
    by (simp add: F_def column_values_def na_values_def)
  have m: "''Quantity'' \<in> set (columns F)" by (simp add: F_def)
  have q: "''Quantity'' \<in> {''Quantity'', ''Reorder Level''}" by simp
  have fin: "list_all (\<lambda>v. to_numeric no_other_numbers v \<noteq> Infinite) (column_values F ''Quantity'')"
    by (simp add: F_def column_values_def to_numeric_def plain_int_12 plain_int_m5 plain_int_ten
        float_exact_def no_other_numbers_def)
  have nr: "''Reorder Level'' \<notin> set (columns F)" by (simp add: F_def)
  from load_inventory_returns [of F no_other_numbers] fin nr rd
  obtain df where l: "load_inventory no_other_numbers (Some F) = Inr df"
    by (auto simp: list_all_iff column_values_def)
  from coerce_upload_returns [of F no_other_numbers] fin nr
  obtain df2 where "coerce_upload no_other_numbers F = Inr df2" by auto
  then obtain st' where b: "bulk_upload no_other_numbers F S = (Saved, st')"
    by (simp add: bulk_upload_cases F_def)
  have vals': "map (\<lambda>v. Num (coerced_int no_other_numbers (read_str_cell v))) (column_values F ''Quantity'')
                = [Num 12, Num (- 5), Num 0]"
    using vals rd by (simp add: F_def column_values_def)
  note t = numeric_columns_are_integers [where ext = no_other_numbers and c = "''Quantity''"]
  have r1: "int_column df ''Quantity''"
    by (rule t [where src = "Some F" and df = df, THEN conjunct1, THEN mp, OF conjI [OF l q]])
  have r2: "column_values df ''Quantity'' = [Num 12, Num (- 5), Num 0]"
    using t [where f = F and df = df, THEN conjunct2, THEN conjunct1, THEN mp,
        OF conjI [OF l conjI [OF q m]]] vals' by simp
  have r3: "column_values (inventory_df st') ''Quantity'' = [Num 12, Num (- 5), Num 0]"
    using t [where new_df = F and st = S and st' = st', THEN conjunct2, THEN conjunct2,
        THEN conjunct1, THEN mp, OF conjI [OF b conjI [OF q m]]] vals by simp
  have r4: "coerced_int no_other_numbers (Str ''ten'') = 0"
    by (rule t [where v = "Str ''ten''", THEN conjunct2, THEN conjunct2, THEN conjunct2, THEN mp, OF n])
  have e1: "\<exists>df. load_inventory no_other_numbers (Some F) = Inr df
      \<and> int_column df ''Quantity''
      \<and> column_values df ''Quantity'' = [Num 12, Num (- 5), Num 0]"
    using l r1 r2 by blast
  have e2: "\<exists>st'. bulk_upload no_other_numbers F S = (Saved, st')
      \<and> column_values (inventory_df st') ''Quantity'' = [Num 12, Num (- 5), Num 0]"
    using b r3 by blast
  from e1 e2 n r4 show ?thesis
    unfolding F_def S_def by (intro conjI)
qed

section \<open>Bulk upload\<close>

text \<open>
  C7, as the claim states it, fails in its last part: an upload that has the Item ID
  column does not always replace the inventory. When the integer coercion of a numeric
  column raises (here on the value \<open>inf\<close>), the exception is caught, a message is shown
  and the file and the table of the session stay as they were.
\<close>

theorem bulk_upload_not_replaced:
  "''Item ID'' \<in> set (columns
       \<lparr>columns = [''Item ID'', ''Quantity''],
        rows = [(\<lambda>c. NaN)(''Item ID'' := Str ''LAB001'', ''Quantity'' := Str ''inf''),
                (\<lambda>c. NaN)(''Item ID'' := Str ''LAB002'', ''Quantity'' := Str ''ten'')]\<rparr>)
   \<and> bulk_upload no_other_numbers
       \<lparr>columns = [''Item ID'', ''Quantity''],
        rows = [(\<lambda>c. NaN)(''Item ID'' := Str ''LAB001'', ''Quantity'' := Str ''inf''),
                (\<lambda>c. NaN)(''Item ID'' := Str ''LAB002'', ''Quantity'' := Str ''ten'')]\<rparr>
       \<lparr>inventory_file = None, inventory_df = empty_frame default_cols,
        username = ''admin'', audit_log = []\<rparr>
     = (CouldNotRead IntCastingNaNError,
        \<lparr>inventory_file = None, inventory_df = empty_frame default_cols,
         username = ''admin'', audit_log = []\<rparr>)"
  by (simp add: bulk_upload_def coerce_int_column_def column_values_def to_numeric_def
      plain_int_inf plain_int_ten no_other_numbers_def)

text \<open>
  C7, amended: a bulk upload without the Item ID column is rejected with the message
  "Uploaded file must contain 'Item ID' column." and changes nothing: the backing file,
  the table of the session and the audit trail are as before. An upload with the column
  whose numeric columns coerce replaces both the backing file and the table of the
  session by the uploaded table, with the same columns and rows and only Quantity and
  Reorder Level coerced; when the coercion raises, the error is shown and nothing changes.
\<close>

theorem bulk_upload_needs_item_id:
  "(''Item ID'' \<notin> set (columns new_df) \<longrightarrow>
      bulk_upload ext new_df st = (ErrorMessage ''Uploaded file must contain 'Item ID' column.'', st))
   \<and> (''Item ID'' \<in> set (columns new_df) \<and> coerce_upload ext new_df = Inr df \<longrightarrow>
        (\<exists>st'. bulk_upload ext new_df st = (Saved, st')
           \<and> inventory_file st' = Some df \<and> inventory_df st' = df)
        \<and> columns df = columns new_df \<and> length (rows df) = length (rows new_df)
        \<and> (\<forall>c. c \<noteq> ''Quantity'' \<and> c \<noteq> ''Reorder Level'' \<longrightarrow> column_values df c = column_values new_df c))
   \<and> (''Item ID'' \<in> set (columns new_df) \<and> coerce_upload ext new_df = Inl e \<longrightarrow>
        bulk_upload ext new_df st = (CouldNotRead e, st))"
proof (intro conjI impI)
  assume "''Item ID'' \<notin> set (columns new_df)"
  then show "bulk_upload ext new_df st = (ErrorMessage ''Uploaded file must contain 'Item ID' column.'', st)"
    by (simp add: bulk_upload_cases)
next
  assume a: "''Item ID'' \<in> set (columns new_df) \<and> coerce_upload ext new_df = Inr df"
  then show "\<exists>st'. bulk_upload ext new_df st = (Saved, st')
           \<and> inventory_file st' = Some df \<and> inventory_df st' = df"
    by (simp add: bulk_upload_cases inventory_df_save inventory_file_save)
  from a coerce_upload_columns [of ext new_df df]
  show "columns df = columns new_df" and "length (rows df) = length (rows new_df)"
    and "\<forall>c. c \<noteq> ''Quantity'' \<and> c \<noteq> ''Reorder Level'' \<longrightarrow> column_values df c = column_values new_df c"
    by blast+
next
  assume "''Item ID'' \<in> set (columns new_df) \<and> coerce_upload ext new_df = Inl e"
  then show "bulk_upload ext new_df st = (CouldNotRead e, st)"
    by (simp add: bulk_upload_cases)
qed

theorem bulk_upload_needs_item_id_witness:
  "''Item ID'' \<notin> set (columns \<lparr>columns = [''Item Name''], rows = [(\<lambda>c. NaN)(''Item Name'' := Str ''Gloves'')]\<rparr>)
   \<and> bulk_upload no_other_numbers
        \<lparr>columns = [''Item Name''], rows = [(\<lambda>c. NaN)(''Item Name'' := Str ''Gloves'')]\<rparr>
        \<lparr>inventory_file = None, inventory_df = empty_frame default_cols,
         username = ''admin'', audit_log = []\<rparr>
      = (ErrorMessage ''Uploaded file must contain 'Item ID' column.'',
         \<lparr>inventory_file = None, inventory_df = empty_frame default_cols,
          username = ''admin'', audit_log = []\<rparr>)
   \<and> ''Item ID'' \<in> set (columns \<lparr>columns = [''Item ID''], rows = [(\<lambda>c. NaN)(''Item ID'' := Str ''LAB001'')]\<rparr>)
   \<and> coerce_upload no_other_numbers
        \<lparr>columns = [''Item ID''], rows = [(\<lambda>c. NaN)(''Item ID'' := Str ''LAB001'')]\<rparr>
      = Inr \<lparr>columns = [''Item ID''], rows = [(\<lambda>c. NaN)(''Item ID'' := Str ''LAB001'')]\<rparr>
   \<and> (\<exists>st'. bulk_upload no_other_numbers
          \<lparr>columns = [''Item ID''], rows = [(\<lambda>c. NaN)(''Item ID'' := Str ''LAB001'')]\<rparr>
          \<lparr>inventory_file = None, inventory_df = empty_frame default_cols,
           username = ''admin'', audit_log = []\<rparr> = (Saved, st')
        \<and> inventory_file st' = Some \<lparr>columns = [''Item ID''], rows = [(\<lambda>c. NaN)(''Item ID'' := Str ''LAB001'')]\<rparr>
        \<and> inventory_df st' = \<lparr>columns = [''Item ID''], rows = [(\<lambda>c. NaN)(''Item ID'' := Str ''LAB001'')]\<rparr>)
   \<and> coerce_upload no_other_numbers
        \<lparr>columns = [''Item ID'', ''Quantity''],
         rows = [(\<lambda>c. NaN)(''Item ID'' := Str ''LAB001'', ''Quantity'' := Str ''inf'')]\<rparr>
      = Inl IntCastingNaNError
   \<and> bulk_upload no_other_numbers
        \<lparr>columns = [''Item ID'', ''Quantity''],
         rows = [(\<lambda>c. NaN)(''Item ID'' := Str ''LAB001'', ''Quantity'' := Str ''inf'')]\<rparr>
        \<lparr>inventory_file = None, inventory_df = empty_frame default_cols,
         username = ''admin'', audit_log = []\<rparr>
      = (CouldNotRead IntCastingNaNError,
         \<lparr>inventory_file = None, inventory_df = empty_frame default_cols,
          username = ''admin'', audit_log = []\<rparr>)"
proof -
  define A where "A = \<lparr>columns = [''Item Name''], rows = [(\<lambda>c. NaN)(''Item Name'' := Str ''Gloves'')]\<rparr>"
  define B where "B = \<lparr>columns = [''Item ID''], rows = [(\<lambda>c. NaN)(''Item ID'' := Str ''LAB001'')]\<rparr>"
  define C where "C = \<lparr>columns = [''Item ID'', ''Quantity''],
         rows = [(\<lambda>c. NaN)(''Item ID'' := Str ''LAB001'', ''Quantity'' := Str ''inf'')]\<rparr>"
  define S where "S = \<lparr>inventory_file = None, inventory_df = empty_frame default_cols,
         username = ''admin'', audit_log = []\<rparr>"
  have a: "''Item ID'' \<notin> set (columns A)" by (simp add: A_def)
  have b: "''Item ID'' \<in> set (columns B)" by (simp add: B_def)
  have c: "''Item ID'' \<in> set (columns C)" by (simp add: C_def)
  have ub: "coerce_upload no_other_numbers B = Inr B"
    by (simp add: coerce_upload_def coerce_int_column_def B_def)
  have uc: "coerce_upload no_other_numbers C = Inl IntCastingNaNError"
    by (simp add: coerce_upload_def coerce_int_column_def C_def column_values_def to_numeric_def
        plain_int_inf)
  note t = bulk_upload_needs_item_id [where ext = no_other_numbers and st = S]
  have r1: "bulk_upload no_other_numbers A S
      = (ErrorMessage ''Uploaded file must contain 'Item ID' column.'', S)"
    by (rule t [where new_df = A, THEN conjunct1, THEN mp, OF a])
  have r2: "\<exists>st'. bulk_upload no_other_numbers B S = (Saved, st')
      \<and> inventory_file st' = Some B \<and> inventory_df st' = B"
    by (rule t [where new_df = B and df = B, THEN conjunct2, THEN conjunct1, THEN mp,
          OF conjI [OF b ub], THEN conjunct1])
  have r3: "bulk_upload no_other_numbers C S = (CouldNotRead IntCastingNaNError, S)"
    by (rule t [where new_df = C and e = IntCastingNaNError, THEN conjunct2, THEN conjunct2,
          THEN mp, OF conjI [OF c uc]])
  from a r1 b ub r2 uc r3 show ?thesis
    unfolding A_def B_def C_def S_def by (intro conjI)
qed

section \<open>Expiry classification\<close>








lemma expiry_monitor_no_column:
  "''Expiry Date'' \<notin> set (columns df) \<Longrightarrow>
     expiry_monitor to_datetime now choice df = Inl (KeyError ''Expiry Date'')"
  by (simp add: expiry_monitor_def)



section \<open>Password verification\<close>

text \<open>A check of the hash function written out above against the test vector of FIPS 180.\<close>

lemma sha256_abc:
  "hexlify (sha256 (encode_utf8 ''abc'')) =
     ''ba7816bf8f01cfea414140de5dae2223b00361a396177a9cb410ff61f20015ad''"
  by code_simp

lemma pbkdf2_hmac_ok:
  "1 \<le> it \<Longrightarrow> it \<le> 2147483647 \<Longrightarrow>
     pbkdf2_hmac password salt it = Inr (pbkdf2_digest password salt (nat it))"
  by (simp add: pbkdf2_hmac_def)


lemma verify_hex:
  assumes "unhexlify (encode_utf8 s) = Inr b" and "1 \<le> it" and "it \<le> 2147483647"
  shows "verify_password_pbkdf2 password (Str s) hash_hex it =
           Inr (Str (hexlify (pbkdf2_digest (encode_utf8 password) b (nat it))) = hash_hex)"
  using assms by (simp add: verify_password_pbkdf2_def pbkdf2_hmac_ok)











section \<open>Creating a user and verifying the password\<close>

lemma hex_digit_value_all:
  "\<forall>n \<in> set [0..<16]. ord (hex_digit n) < 128 \<and> hex_value (word_of_nat (ord (hex_digit n))) = Some n"
  by code_simp

lemma hex_digit_value:
  assumes "n < 16"
  shows "ord (hex_digit n) < 128" and "hex_value (word_of_nat (ord (hex_digit n))) = Some n"
proof -
  have "n \<in> set [0..<16]" using assms by simp
  with hex_digit_value_all show "ord (hex_digit n) < 128"
    and "hex_value (word_of_nat (ord (hex_digit n))) = Some n"
    by blast+
qed

lemma encode_hex_digit: "n < 16 \<Longrightarrow> encode_char (hex_digit n) = [word_of_nat (ord (hex_digit n))]"
  by (simp add: encode_char_def hex_digit_value(1))

lemma byte_nibbles:
  fixes b :: byte
  shows "unat b div 16 < 16" and "unat b mod 16 < 16"
    and "word_of_nat (16 * (unat b div 16) + unat b mod 16) = b"
proof -
  have "unat b < 2 ^ LENGTH(8)" by (rule unsigned_less)
  then show "unat b div 16 < 16" by simp
  show "unat b mod 16 < 16" by simp
  have "16 * (unat b div 16) + unat b mod 16 = unat b" by simp
  then show "word_of_nat (16 * (unat b div 16) + unat b mod 16) = b" by simp
qed

lemma hexlify_Cons:
  "hexlify (b # bs) = hex_digit (unat b div 16) # hex_digit (unat b mod 16) # hexlify bs"
  by (simp add: hexlify_def)

lemma encode_utf8_Cons: "encode_utf8 (c # s) = encode_char c @ encode_utf8 s"
  by (simp add: encode_utf8_def)

lemma encode_utf8_hexlify_Cons:
  "encode_utf8 (hexlify (b # bs)) =
     word_of_nat (ord (hex_digit (unat b div 16))) # word_of_nat (ord (hex_digit (unat b mod 16)))
       # encode_utf8 (hexlify bs)"
  by (simp only: hexlify_Cons encode_utf8_Cons encode_hex_digit byte_nibbles append_Cons append_Nil)

lemma encode_utf8_hexlify_Nil: "encode_utf8 (hexlify []) = []"
  by (simp add: encode_utf8_def hexlify_def)

lemma length_encode_utf8_hexlify: "length (encode_utf8 (hexlify bs)) = 2 * length bs"
proof (induction bs)
  case Nil
  show ?case by (simp only: encode_utf8_hexlify_Nil) simp
next
  case (Cons b bs)
  show ?case by (simp only: encode_utf8_hexlify_Cons list.size Cons.IH) simp
qed

lemma unhex_pairs_hexlify: "unhex_pairs (encode_utf8 (hexlify bs)) = Inr bs"
proof (induction bs)
  case Nil
  show ?case by (simp only: encode_utf8_hexlify_Nil unhex_pairs.simps)
next
  case (Cons b bs)
  have "unhex_pairs (encode_utf8 (hexlify (b # bs))) =
          Inr (word_of_nat (16 * (unat b div 16) + unat b mod 16) # bs)"
    by (simp only: encode_utf8_hexlify_Cons unhex_pairs.simps hex_digit_value(2) byte_nibbles
        Cons.IH prod.case option.case sum.case)
  then show ?case by (simp only: byte_nibbles)
qed

lemma unhexlify_hexlify: "unhexlify (encode_utf8 (hexlify bs)) = Inr bs"
  by (simp add: unhexlify_def length_encode_utf8_hexlify unhex_pairs_hexlify)

lemma hexlify_inj:
  assumes "hexlify a = hexlify b"
  shows "a = b"
proof -
  have "unhexlify (encode_utf8 (hexlify a)) = unhexlify (encode_utf8 (hexlify b))"
    by (simp only: assms)
  then have "(Inr a :: py_error + byte list) = Inr b"
    by (simp only: unhexlify_hexlify)
  then show ?thesis by (simp only: sum.inject)
qed

lemma length_hexlify: "length (hexlify bs) = 2 * length bs"
  by (induction bs) (simp_all add: hexlify_def)

lemma length_state_bytes: "length (state_bytes s) = 32"
proof -
  obtain a b c d e f g h where "s = (a, b, c, d, e, f, g, h)"
    by (metis prod_cases4)
  then show ?thesis by (simp add: u32_bytes_def)
qed

lemma length_sha256: "length (sha256 m) = 32"
  unfolding sha256_def Let_def by (rule length_state_bytes)

lemma length_hmac: "length (hmac_sha256 k m) = 32"
  by (simp add: hmac_sha256_def Let_def length_sha256)

lemma length_pbkdf2_loop: "length t = 32 \<Longrightarrow> length (pbkdf2_loop p n u t) = 32"
  by (induction n arbitrary: u t) (simp_all add: Let_def length_hmac)

lemma length_pbkdf2_digest: "length (pbkdf2_digest p s c) = 32"
  by (simp add: pbkdf2_digest_def Let_def length_pbkdf2_loop length_hmac)

lemma na_values_short: "s \<in> set na_values \<Longrightarrow> length s \<le> 8"
  by (auto simp: na_values_def)

lemma na_values_not_digits: "s \<in> set na_values \<Longrightarrow> s = [] \<or> \<not> list_all is_ascii_digit s"
  by (auto simp: na_values_def is_ascii_digit_def ord_def)

lemma py_int_py_str:
  assumes "0 \<le> i" and "i \<le> 2147483647"
  shows "py_int (py_str i) = Inr i"
proof -
  have s: "py_str i = str_nat (nat i)"
    using assms(1) by (simp add: py_str_def)
  have d: "isdigit (str_nat (nat i))"
    by (rule ascii_isdigit [OF str_nat_nonempty str_nat_digits])
  have k: "0 < int_max_str_digits"
    by (simp add: int_max_str_digits_def)
  have "(10 :: nat) ^ 10 \<le> 10 ^ int_max_str_digits"
    by (intro power_increasing) (simp_all add: int_max_str_digits_def)
  moreover have "nat i < 10 ^ 10"
    using assms by simp
  ultimately have "nat i < 10 ^ int_max_str_digits"
    by (rule less_le_trans [rotated])
  then have l: "length (str_nat (nat i)) \<le> int_max_str_digits"
    by (simp only: length_str_nat [OF k])
  show ?thesis
    unfolding s using assms(1) l
    by (simp add: py_int_isdigit [OF d] str_nat_digits digits_value_str_nat)
qed

lemma py_str_not_na: "0 \<le> i \<Longrightarrow> py_str i \<notin> set na_values"
  using na_values_not_digits [of "py_str i"]
  by (auto simp: py_str_def str_nat_nonempty str_nat_digits)

lemma hmac_key_zero: "length p < 64 \<Longrightarrow> hmac_key (p @ [0]) = hmac_key p"
proof -
  assume l: "length p < 64"
  then have "64 - length p = Suc (63 - length p)" by simp
  then have "replicate (64 - length p) (0 :: byte) = 0 # replicate (63 - length p) 0"
    by simp
  with l show ?thesis by (simp add: hmac_key_def Let_def)
qed

lemma hmac_zero: "length p < 64 \<Longrightarrow> hmac_sha256 (p @ [0]) m = hmac_sha256 p m"
  by (simp add: hmac_sha256_def hmac_key_zero)

lemma pbkdf2_loop_zero: "length p < 64 \<Longrightarrow> pbkdf2_loop (p @ [0]) n u t = pbkdf2_loop p n u t"
  by (induction n arbitrary: u t) (simp_all add: hmac_zero)

lemma pbkdf2_digest_zero: "length p < 64 \<Longrightarrow> pbkdf2_digest (p @ [0]) salt c = pbkdf2_digest p salt c"
  by (simp add: pbkdf2_digest_def hmac_zero pbkdf2_loop_zero)

lemma na_values_minus: "CHR ''-'' # t \<in> set na_values \<Longrightarrow> \<not> list_all is_ascii_digit t"
  by (auto simp: na_values_def is_ascii_digit_def ord_def)

lemma py_str_not_na_any: "py_str i \<notin> set na_values"
proof (cases "i < 0")
  case True
  then show ?thesis
    using na_values_minus [of "str_nat (nat (- i))"] by (auto simp: py_str_def str_nat_digits)
next
  case False
  then show ?thesis by (intro py_str_not_na) simp
qed

lemma read_str_cell_idem: "read_str_cell (read_str_cell v) = read_str_cell v"
  by (cases v) (simp_all add: py_str_not_na_any)

lemma read_str_cell_Str: "s \<notin> set na_values \<Longrightarrow> read_str_cell (Str s) = Str s"
  by simp

lemma hexlify_not_na: "4 < length bs \<Longrightarrow> hexlify bs \<notin> set na_values"
  using na_values_short [of "hexlify bs"] by (auto simp: length_hexlify)

lemma fold_add_user_column_id:
  "set user_cols \<subseteq> set (columns df) \<Longrightarrow> fold add_user_column user_cols df = df"
  by (simp add: user_cols_def add_user_column_def)

lemma load_users_concat_row:
  "rows (load_users (Some (concat_row df0 user_cols nr))) =
     map (\<lambda>r c. read_str_cell (if c \<in> set (columns df0) then r c else NaN)) (rows df0)
       @ [\<lambda>c. read_str_cell (if c \<in> set user_cols then nr c else NaN)]"
proof -
  have "set user_cols \<subseteq> set (columns (read_str (concat_row df0 user_cols nr)))"
    by (auto simp: read_str_def concat_row_def)
  then have "load_users (Some (concat_row df0 user_cols nr)) = read_str (concat_row df0 user_cols nr)"
    by (simp add: load_users_def fold_add_user_column_id)
  then show ?thesis by (simp add: read_str_def concat_row_def)
qed

lemma add_user_Inr:
  assumes "add_user_to_csv rnd name password users it = (Inr (), users')"
  shows "1 \<le> it" and "it \<le> 2147483647"
    and "\<exists>df0. users' = Some (concat_row df0 user_cols
            (user_row name (hexlify rnd)
               (hexlify (pbkdf2_digest (encode_utf8 password) rnd (nat it))) it))
          \<and> (\<forall>r \<in> set (rows df0). \<forall>c. read_str_cell (r c) = r c)
          \<and> (''username'' \<in> set (columns df0) \<longrightarrow> Str name \<notin> set (column_values df0 ''username''))"
proof -
  from assms have p: "\<exists>dk. pbkdf2_hmac (encode_utf8 password) rnd it = Inr dk"
    by (auto simp: add_user_to_csv_def Let_def unhexlify_hexlify split: sum.splits)
  then show it: "1 \<le> it" "it \<le> 2147483647"
    by (auto simp: pbkdf2_hmac_def split: if_splits)
  define nr where "nr = user_row name (hexlify rnd)
               (hexlify (pbkdf2_digest (encode_utf8 password) rnd (nat it))) it"
  have dk: "pbkdf2_hmac (encode_utf8 password) rnd it
              = Inr (pbkdf2_digest (encode_utf8 password) rnd (nat it))"
    using it by (rule pbkdf2_hmac_ok)
  show "\<exists>df0. users' = Some (concat_row df0 user_cols
            (user_row name (hexlify rnd)
               (hexlify (pbkdf2_digest (encode_utf8 password) rnd (nat it))) it))
          \<and> (\<forall>r \<in> set (rows df0). \<forall>c. read_str_cell (r c) = r c)
          \<and> (''username'' \<in> set (columns df0) \<longrightarrow> Str name \<notin> set (column_values df0 ''username''))"
  proof (cases users)
    case None
    with assms dk have "users' = Some (concat_row (empty_frame []) user_cols nr)"
      by (simp add: add_user_to_csv_def Let_def unhexlify_hexlify nr_def)
    then show ?thesis
      unfolding nr_def by (intro exI [of _ "empty_frame []"]) (simp add: empty_frame_def)
  next
    case (Some f)
    with assms dk have u: "users' = Some (concat_row (read_str f) user_cols nr)"
      and d: "\<not> (''username'' \<in> set (columns (read_str f))
                \<and> Str name \<in> set (column_values (read_str f) ''username''))"
      by (auto simp: add_user_to_csv_def Let_def unhexlify_hexlify nr_def split: if_splits)
    have "\<forall>r \<in> set (rows (read_str f)). \<forall>c. read_str_cell (r c) = r c"
      by (auto simp: read_str_def read_str_cell_idem)
    with u d show ?thesis
      unfolding nr_def by (intro exI [of _ "read_str f"]) blast
  qed
qed

lemma filter_last_only:
  "\<forall>y \<in> set xs. \<not> P y \<Longrightarrow> P x \<Longrightarrow> filter P (xs @ [x]) = [x]"
  by (induction xs) auto

lemma login_after_add:
  assumes len: "length rnd = 16"
    and na: "name \<notin> set na_values"
    and add: "add_user_to_csv rnd name password users it = (Inr (), users')"
  shows "login_ui users' name p =
           Inr (if pbkdf2_digest (encode_utf8 p) rnd (nat it)
                   = pbkdf2_digest (encode_utf8 password) rnd (nat it)
                then (True, Some name) else (False, None))"
proof -
  define dk where "dk = pbkdf2_digest (encode_utf8 password) rnd (nat it)"
  define nr where "nr = user_row name (hexlify rnd) (hexlify dk) it"
  define new where "new = (\<lambda>c. read_str_cell (if c \<in> set user_cols then nr c else NaN))"
  from add_user_Inr [OF add] obtain df0 where
    it: "1 \<le> it" "it \<le> 2147483647" and
    u: "users' = Some (concat_row df0 user_cols nr)" and
    rd: "\<forall>r \<in> set (rows df0). \<forall>c. read_str_cell (r c) = r c" and
    dup: "''username'' \<in> set (columns df0) \<longrightarrow> Str name \<notin> set (column_values df0 ''username'')"
    unfolding nr_def dk_def by blast
  have rows: "rows (load_users users') =
      map (\<lambda>r c. read_str_cell (if c \<in> set (columns df0) then r c else NaN)) (rows df0) @ [new]"
    unfolding u new_def by (rule load_users_concat_row)
  have old: "\<forall>y \<in> set (map (\<lambda>r c. read_str_cell (if c \<in> set (columns df0) then r c else NaN)) (rows df0)).
      \<not> cell_eq (y ''username'') (Str name)"
  proof (cases "''username'' \<in> set (columns df0)")
    case True
    with dup have "\<forall>r \<in> set (rows df0). r ''username'' \<noteq> Str name"
      by (force simp: column_values_def image_iff)
    with True rd show ?thesis by (auto simp: cell_eq_def)
  next
    case False
    then show ?thesis by (auto simp: cell_eq_def)
  qed
  have salt_ok: "hexlify rnd \<notin> set na_values"
    using len by (intro hexlify_not_na) simp
  have hash_ok: "hexlify dk \<notin> set na_values"
    unfolding dk_def by (intro hexlify_not_na) (simp add: length_pbkdf2_digest)
  have iter_ok: "py_str it \<notin> set na_values"
    using it by (intro py_str_not_na) simp
  have n1: "new ''username'' = Str name"
    using na by (simp add: new_def nr_def user_row_def user_cols_def)
  have n2: "new ''salt'' = Str (hexlify rnd)"
    using salt_ok by (simp add: new_def nr_def user_row_def user_cols_def)
  have n3: "new ''hash'' = Str (hexlify dk)"
    using hash_ok by (simp add: new_def nr_def user_row_def user_cols_def)
  have n4: "new ''iterations'' = Str (py_str it)"
    using iter_ok by (simp add: new_def nr_def user_row_def user_cols_def)
  have f: "filter (\<lambda>r. cell_eq (r ''username'') (Str name)) (rows (load_users users')) = [new]"
    unfolding rows using old by (rule filter_last_only) (simp add: n1 cell_eq_def)
  have i: "int_of_cell (new ''iterations'') = Inr it"
    using it by (simp add: n4 py_int_py_str)
  have v: "verify_password_pbkdf2 p (new ''salt'') (new ''hash'') it =
      Inr (pbkdf2_digest (encode_utf8 p) rnd (nat it) = dk)"
  proof -
    have h: "unhexlify (encode_utf8 (hexlify rnd)) = Inr rnd" by (rule unhexlify_hexlify)
    have "verify_password_pbkdf2 p (Str (hexlify rnd)) (Str (hexlify dk)) it =
        Inr (Str (hexlify (pbkdf2_digest (encode_utf8 p) rnd (nat it))) = Str (hexlify dk))"
      by (rule verify_hex [OF h it])
    moreover have "(hexlify (pbkdf2_digest (encode_utf8 p) rnd (nat it)) = hexlify dk)
        = (pbkdf2_digest (encode_utf8 p) rnd (nat it) = dk)"
      using hexlify_inj by blast
    ultimately show ?thesis by (simp add: n2 n3)
  qed
  show ?thesis
    by (simp add: login_ui_def Let_def f i v dk_def)
qed

lemma login_unknown_user:
  assumes "\<forall>r \<in> set (rows (load_users users)). r ''username'' \<noteq> Str name"
  shows "login_ui users name p = Inr (False, None)"
proof -
  from assms have "filter (\<lambda>r. cell_eq (r ''username'') (Str name)) (rows (load_users users)) = []"
    by (auto simp: cell_eq_def filter_empty_conv)
  then show ?thesis by (simp add: login_ui_def Let_def)
qed

lemma add_user_returns:
  assumes "1 \<le> it" "it \<le> 2147483647"
    and "\<forall>f. users = Some f \<longrightarrow>
           \<not> (''username'' \<in> set (columns (read_str f))
              \<and> Str name \<in> set (column_values (read_str f) ''username''))"
  shows "\<exists>users'. add_user_to_csv rnd name password users it = (Inr (), users')"
  using assms by (cases users) (auto simp: add_user_to_csv_def Let_def unhexlify_hexlify pbkdf2_hmac_ok)

lemma add_user_None:
  assumes "1 \<le> it" "it \<le> 2147483647"
  shows "add_user_to_csv rnd name password None it =
           (Inr (), Some (concat_row (empty_frame []) user_cols
              (user_row name (hexlify rnd)
                 (hexlify (pbkdf2_digest (encode_utf8 password) rnd (nat it))) it)))"
  using assms by (simp add: add_user_to_csv_def Let_def unhexlify_hexlify pbkdf2_hmac_ok)

lemma login_na_user:
  assumes "1 \<le> it" "it \<le> 2147483647" and "name \<in> set na_values"
  shows "login_ui (snd (add_user_to_csv rnd name password None it)) name p = Inr (False, None)"
proof -
  have "rows (load_users (snd (add_user_to_csv rnd name password None it))) =
      [\<lambda>c. read_str_cell (if c \<in> set user_cols
          then user_row name (hexlify rnd)
                 (hexlify (pbkdf2_digest (encode_utf8 password) rnd (nat it))) it c
          else NaN)]"
    by (simp add: add_user_None [OF assms(1,2)] load_users_concat_row empty_frame_def)
  moreover have "read_str_cell (Str name) = NaN"
    using assms(3) by simp
  ultimately have "\<forall>r \<in> set (rows (load_users (snd (add_user_to_csv rnd name password None it)))).
      r ''username'' \<noteq> Str name"
    by (simp add: user_row_def user_cols_def)
  then show ?thesis by (rule login_unknown_user)
qed

text \<open>
  C1, as the claim states it, fails in two ways. HMAC fills a short key with zero bytes,
  so a password and the same password followed by the character U+0000 have the same
  digest: after creating \<open>alice\<close> with the password \<open>a\<close>, the other password \<open>a\<close>
  followed by U+0000 is accepted. And a username that pandas reads as a missing value,
  such as \<open>NA\<close>, is never found again in the users file: after creating \<open>NA\<close>, the
  same password is refused.
\<close>

theorem verify_accepts_other_password:
  "fst (add_user_to_csv [1, 2, 3, 4, 5, 6, 7, 8, 9, 10, 11, 12, 13, 14, 15, 16]
          ''alice'' ''a'' None PBKDF2_ITER_DEFAULT) = Inr ()
   \<and> [CHR ''a'', CHR 0x00] \<noteq> ''a''
   \<and> login_ui (snd (add_user_to_csv [1, 2, 3, 4, 5, 6, 7, 8, 9, 10, 11, 12, 13, 14, 15, 16]
                     ''alice'' ''a'' None PBKDF2_ITER_DEFAULT))
        ''alice'' [CHR ''a'', CHR 0x00] = Inr (True, Some ''alice'')
   \<and> fst (add_user_to_csv [1, 2, 3, 4, 5, 6, 7, 8, 9, 10, 11, 12, 13, 14, 15, 16]
          ''NA'' ''a'' None PBKDF2_ITER_DEFAULT) = Inr ()
   \<and> login_ui (snd (add_user_to_csv [1, 2, 3, 4, 5, 6, 7, 8, 9, 10, 11, 12, 13, 14, 15, 16]
                     ''NA'' ''a'' None PBKDF2_ITER_DEFAULT))
        ''NA'' ''a'' = Inr (False, None)"
proof -
  define R :: "byte list" where "R = [1, 2, 3, 4, 5, 6, 7, 8, 9, 10, 11, 12, 13, 14, 15, 16]"
  have it: "1 \<le> PBKDF2_ITER_DEFAULT" "PBKDF2_ITER_DEFAULT \<le> 2147483647"
    by (simp_all add: PBKDF2_ITER_DEFAULT_def)
  have len: "length R = 16" by (simp add: R_def)
  have na: "''alice'' \<notin> set na_values" by (simp add: na_values_def)
  have na2: "''NA'' \<in> set na_values" by (simp add: na_values_def)
  obtain u where a: "add_user_to_csv R ''alice'' ''a'' None PBKDF2_ITER_DEFAULT = (Inr (), u)"
    using add_user_None [OF it] by blast
  have e: "encode_utf8 [CHR ''a'', CHR 0x00] = encode_utf8 ''a'' @ [0]"
    by (simp add: encode_utf8_def encode_char_def ord_def)
  have l: "length (encode_utf8 ''a'') < 64"
    by (simp add: encode_utf8_def encode_char_def ord_def)
  have d: "pbkdf2_digest (encode_utf8 [CHR ''a'', CHR 0x00]) R (nat PBKDF2_ITER_DEFAULT)
         = pbkdf2_digest (encode_utf8 ''a'') R (nat PBKDF2_ITER_DEFAULT)"
    unfolding e using l by (rule pbkdf2_digest_zero)
  have c1: "fst (add_user_to_csv R ''alice'' ''a'' None PBKDF2_ITER_DEFAULT) = Inr ()"
    by (simp add: a)
  have c2: "[CHR ''a'', CHR 0x00] \<noteq> ''a''" by simp
  have c3: "login_ui (snd (add_user_to_csv R ''alice'' ''a'' None PBKDF2_ITER_DEFAULT))
        ''alice'' [CHR ''a'', CHR 0x00] = Inr (True, Some ''alice'')"
    using login_after_add [OF len na a, of "[CHR ''a'', CHR 0x00]"] d by (simp add: a)
  have c4: "fst (add_user_to_csv R ''NA'' ''a'' None PBKDF2_ITER_DEFAULT) = Inr ()"
    by (simp add: add_user_None [OF it])
  have c5: "login_ui (snd (add_user_to_csv R ''NA'' ''a'' None PBKDF2_ITER_DEFAULT)) ''NA'' ''a''
      = Inr (False, None)"
    by (rule login_na_user [OF it na2])
  from c1 c2 c3 c4 c5 show ?thesis unfolding R_def by (intro conjI)
qed

text \<open>
  C1, amended: for every username that is not one of the missing-value markers of pandas
  and every password, once \<open>add_user_to_csv\<close> has succeeded, the verification at login
  returns true for the same password, and for any password it returns true exactly when
  the PBKDF2 digest of that password under the stored salt and iteration count equals
  the stored digest, so false for every password with a different digest. The
  verification returns false when no row of the users table carries the username.
\<close>

theorem verify_after_create:
  "(length rnd = 16 \<and> name \<notin> set na_values
      \<and> add_user_to_csv rnd name password users it = (Inr (), users') \<longrightarrow>
        login_ui users' name password = Inr (True, Some name)
      \<and> login_ui users' name p =
          Inr (if pbkdf2_digest (encode_utf8 p) rnd (nat it)
                  = pbkdf2_digest (encode_utf8 password) rnd (nat it)
               then (True, Some name) else (False, None)))
   \<and> ((\<forall>r \<in> set (rows (load_users store)). r ''username'' \<noteq> Str who) \<longrightarrow>
        login_ui store who q = Inr (False, None))"
proof (intro conjI impI)
  assume a: "length rnd = 16 \<and> name \<notin> set na_values
      \<and> add_user_to_csv rnd name password users it = (Inr (), users')"
  then have len: "length rnd = 16" and na: "name \<notin> set na_values"
    and add: "add_user_to_csv rnd name password users it = (Inr (), users')"
    by blast+
  from login_after_add [OF len na add, of password]
  show "login_ui users' name password = Inr (True, Some name)" by simp
  from login_after_add [OF len na add, of p]
  show "login_ui users' name p =
          Inr (if pbkdf2_digest (encode_utf8 p) rnd (nat it)
                  = pbkdf2_digest (encode_utf8 password) rnd (nat it)
               then (True, Some name) else (False, None))" .
next
  assume "\<forall>r \<in> set (rows (load_users store)). r ''username'' \<noteq> Str who"
  then show "login_ui store who q = Inr (False, None)" by (rule login_unknown_user)
qed

theorem verify_after_create_witness:
  "length [1, 2, 3, 4, 5, 6, 7, 8, 9, 10, 11, 12, 13, 14, 15, 16 :: byte] = 16
   \<and> ''alice'' \<notin> set na_values
   \<and> (\<exists>users'. add_user_to_csv [1, 2, 3, 4, 5, 6, 7, 8, 9, 10, 11, 12, 13, 14, 15, 16]
                   ''alice'' ''a'' None PBKDF2_ITER_DEFAULT = (Inr (), users')
        \<and> login_ui users' ''alice'' ''a'' = Inr (True, Some ''alice'')
        \<and> login_ui users' ''alice'' ''b'' =
            Inr (if pbkdf2_digest (encode_utf8 ''b'') [1, 2, 3, 4, 5, 6, 7, 8, 9, 10, 11, 12, 13, 14, 15, 16]
                      (nat PBKDF2_ITER_DEFAULT)
                    = pbkdf2_digest (encode_utf8 ''a'') [1, 2, 3, 4, 5, 6, 7, 8, 9, 10, 11, 12, 13, 14, 15, 16]
                      (nat PBKDF2_ITER_DEFAULT)
                 then (True, Some ''alice'') else (False, None)))
   \<and> rows (load_users None) = []
   \<and> login_ui None ''bob'' ''a'' = Inr (False, None)"
proof -
  define R :: "byte list" where "R = [1, 2, 3, 4, 5, 6, 7, 8, 9, 10, 11, 12, 13, 14, 15, 16]"
  have it: "1 \<le> PBKDF2_ITER_DEFAULT" "PBKDF2_ITER_DEFAULT \<le> 2147483647"
    by (simp_all add: PBKDF2_ITER_DEFAULT_def)
  have len: "length R = 16" by (simp add: R_def)
  have na: "''alice'' \<notin> set na_values" by (simp add: na_values_def)
  obtain u where a: "add_user_to_csv R ''alice'' ''a'' None PBKDF2_ITER_DEFAULT = (Inr (), u)"
    using add_user_None [OF it] by blast
  note t = verify_after_create [where rnd = R and name = "''alice''" and password = "''a''"
      and users = None and it = PBKDF2_ITER_DEFAULT and users' = u and p = "''b''"
      and store = None and who = "''bob''" and q = "''a''"]
  note t1 = t [THEN conjunct1, THEN mp, OF conjI [OF len conjI [OF na a]]]
  have e: "rows (load_users None) = []"
    by (simp add: load_users_def empty_frame_def)
  then have b: "\<forall>r \<in> set (rows (load_users None)). r ''username'' \<noteq> Str ''bob''"
    by simp
  have r3: "login_ui None ''bob'' ''a'' = Inr (False, None)"
    by (rule t [THEN conjunct2, THEN mp, OF b])
  have ex: "\<exists>users'. add_user_to_csv R ''alice'' ''a'' None PBKDF2_ITER_DEFAULT = (Inr (), users')
        \<and> login_ui users' ''alice'' ''a'' = Inr (True, Some ''alice'')
        \<and> login_ui users' ''alice'' ''b'' =
            Inr (if pbkdf2_digest (encode_utf8 ''b'') R (nat PBKDF2_ITER_DEFAULT)
                    = pbkdf2_digest (encode_utf8 ''a'') R (nat PBKDF2_ITER_DEFAULT)
                 then (True, Some ''alice'') else (False, None))"
    using a t1 by blast
  from len na ex e r3 show ?thesis unfolding R_def by (intro conjI)
qed

end
